theory Spec2Isabelle
  imports Complex_Main "HOL-Library.AList" "HOL-Library.Sublist"
begin

section \<open>Text as the source handles it\<close>

text \<open>
  A Python \<open>str\<close> is modelled as a HOL \<open>string\<close>: one \<open>char\<close> per code point, for the
  code points 0 to 255 (the Latin-1 block, which holds every literal of the source, the
  Portuguese ones included). The predicates below are Python's \<open>str.isspace\<close>,
  \<open>str.lower\<close> and the \<open>re\<close> classes \<open>\s\<close>, \<open>\d\<close> and \<open>\w\<close> on that range.
\<close>

definition code :: "char \<Rightarrow> nat" where
  "code c = of_char c"

definition is_space :: "char \<Rightarrow> bool" where
  "is_space c = (let n = code c in (9 \<le> n \<and> n \<le> 13) \<or> (28 \<le> n \<and> n \<le> 32) \<or> n = 133 \<or> n = 160)"

definition is_digit :: "char \<Rightarrow> bool" where
  "is_digit c = (let n = code c in 48 \<le> n \<and> n \<le> 57)"

definition is_word :: "char \<Rightarrow> bool" where
  "is_word c = (let n = code c in
     (48 \<le> n \<and> n \<le> 57) \<or> (65 \<le> n \<and> n \<le> 90) \<or> n = 95 \<or> (97 \<le> n \<and> n \<le> 122)
     \<or> n = 170 \<or> n = 178 \<or> n = 179 \<or> n = 181 \<or> n = 185 \<or> n = 186
     \<or> (188 \<le> n \<and> n \<le> 190) \<or> (192 \<le> n \<and> n \<le> 214) \<or> (216 \<le> n \<and> n \<le> 246)
     \<or> 248 \<le> n)"

definition char_lower :: "char \<Rightarrow> char" where
  "char_lower c = (let n = code c in
     if (65 \<le> n \<and> n \<le> 90) \<or> (192 \<le> n \<and> n \<le> 222 \<and> n \<noteq> 215) then char_of (n + 32) else c)"

definition lower :: "string \<Rightarrow> string" where
  "lower s = map char_lower s"

definition strip :: "string \<Rightarrow> string" where
  "strip s = rev (dropWhile is_space (rev (dropWhile is_space s)))"

text \<open>\<open>needle in hay\<close> on strings.\<close>

fun py_in :: "string \<Rightarrow> string \<Rightarrow> bool" where
  "py_in needle [] = (needle = [])"
| "py_in needle (c # cs) = (prefix needle (c # cs) \<or> py_in needle cs)"

text \<open>\<open>s.split()\<close>: the maximal runs of non-whitespace characters, in order.\<close>

fun split_ws :: "string \<Rightarrow> string \<Rightarrow> string list" where
  "split_ws cur [] = (if cur = [] then [] else [cur])"
| "split_ws cur (c # cs) =
     (if is_space c then (if cur = [] then split_ws [] cs else cur # split_ws [] cs)
      else split_ws (cur @ [c]) cs)"

definition split :: "string \<Rightarrow> string list" where
  "split s = split_ws [] s"

text \<open>\<open>s.split(sep)\<close> for a one-character separator: never empty, since the text after the
  last separator (possibly the empty string) is always a field.\<close>

fun split_on :: "char \<Rightarrow> string \<Rightarrow> string \<Rightarrow> string list" where
  "split_on sep cur [] = [cur]"
| "split_on sep cur (c # cs) =
     (if c = sep then cur # split_on sep [] cs else split_on sep (cur @ [c]) cs)"

text \<open>\<open>int(s)\<close> on a run of decimal digits.\<close>

definition py_int :: "string \<Rightarrow> int" where
  "py_int s = foldl (\<lambda>acc c. 10 * acc + int (code c - 48)) 0 s"

section \<open>Regular expressions\<close>

text \<open>
  The patterns of the source are kept as syntax trees and run by a backtracking matcher
  that returns every way to match a prefix of the subject, in the order Python's \<open>re\<close>
  tries them (greedy first, alternatives left to right), each with the texts of its
  capturing groups and the unread rest of the subject. The repetitions of the source all
  range over one character class.
\<close>

datatype rx =
    Eps
  | Lit string
  | Cls "char \<Rightarrow> bool"
  | Seq rx rx
  | Alt rx rx
  | Opt rx
  | Star "char \<Rightarrow> bool"
  | Plus "char \<Rightarrow> bool"
  | Grp rx

definition char_eq :: "bool \<Rightarrow> char \<Rightarrow> char \<Rightarrow> bool" where
  "char_eq ic a b = (if ic then char_lower a = char_lower b else a = b)"

fun lit_match :: "bool \<Rightarrow> string \<Rightarrow> string \<Rightarrow> bool" where
  "lit_match ic [] s = True"
| "lit_match ic (l # ls) [] = False"
| "lit_match ic (l # ls) (c # cs) = (if char_eq ic l c then lit_match ic ls cs else False)"

fun rx_run :: "bool \<Rightarrow> rx \<Rightarrow> string \<Rightarrow> (string list \<times> string) list" where
  "rx_run ic Eps s = [([], s)]"
| "rx_run ic (Lit l) s = (if lit_match ic l s then [([], drop (length l) s)] else [])"
| "rx_run ic (Cls p) s = (case s of [] \<Rightarrow> [] | c # cs \<Rightarrow> if p c then [([], cs)] else [])"
| "rx_run ic (Seq a b) s =
     concat (map (\<lambda>(g1, r1). map (\<lambda>(g2, r2). (g1 @ g2, r2)) (rx_run ic b r1)) (rx_run ic a s))"
| "rx_run ic (Alt a b) s = rx_run ic a s @ rx_run ic b s"
| "rx_run ic (Opt a) s = rx_run ic a s @ [([], s)]"
| "rx_run ic (Star p) s =
     map (\<lambda>k. ([], drop k s)) (rev [0 ..< Suc (length (takeWhile p s))])"
| "rx_run ic (Plus p) s =
     map (\<lambda>k. ([], drop k s)) (rev [1 ..< Suc (length (takeWhile p s))])"
| "rx_run ic (Grp a) s =
     map (\<lambda>(g, r). (take (length s - length r) s # g, r)) (rx_run ic a s)"

text \<open>\<open>re.search\<close>: the first way to match at the leftmost position that has one. The result
  is the list of group texts.\<close>

fun re_search :: "bool \<Rightarrow> rx \<Rightarrow> string \<Rightarrow> string list option" where
  "re_search ic r [] = (case rx_run ic r [] of [] \<Rightarrow> None | (g, _) # _ \<Rightarrow> Some g)"
| "re_search ic r (c # cs) =
     (case rx_run ic r (c # cs) of [] \<Rightarrow> re_search ic r cs | (g, _) # _ \<Rightarrow> Some g)"

text \<open>\<open>re.match\<close>: the same at position 0 only.\<close>

definition re_match :: "bool \<Rightarrow> rx \<Rightarrow> string \<Rightarrow> string list option" where
  "re_match ic r s = (case rx_run ic r s of [] \<Rightarrow> None | (g, _) # _ \<Rightarrow> Some g)"

definition seqs :: "rx list \<Rightarrow> rx" where
  "seqs rs = foldr Seq rs Eps"

text \<open>Words separated by \<open>\s+\<close>, the shape of most patterns of the source.\<close>

fun words :: "string list \<Rightarrow> rx" where
  "words [] = Eps"
| "words [w] = Lit w"
| "words (w # ws) = Seq (Lit w) (Seq (Plus is_space) (words ws))"

definition dot :: rx where
  "dot = Cls (\<lambda>c. code c \<noteq> 10)"

section \<open>Block detection (utils/block\_detection.py)\<close>

text \<open>The seven keys of \<open>PATTERNS\<close>, in the order the dictionary literal lists them.\<close>

definition block_kinds :: "string list" where
  "block_kinds = [''rate_limit'', ''security_check'', ''login_required'', ''account_restricted'',
     ''not_found'', ''private_profile'', ''ip_block'']"

text \<open>Accented letters of the Portuguese patterns and messages.\<close>

definition a_acute :: string where "a_acute = [CHR 0xE1]"
definition a_tilde :: string where "a_tilde = [CHR 0xE3]"
definition c_cedil :: string where "c_cedil = [CHR 0xE7]"
definition e_acute :: string where "e_acute = [CHR 0xE9]"
definition e_circ :: string where "e_circ = [CHR 0xEA]"
definition i_acute :: string where "i_acute = [CHR 0xED]"
definition o_tilde :: string where "o_tilde = [CHR 0xF5]"
definition o_circ :: string where "o_circ = [CHR 0xF4]"

definition PATTERNS :: "(string \<times> rx list) list" where
  "PATTERNS = [
    (''rate_limit'', [
      seqs [words [''you've'', ''reached'', ''the''], Plus is_space,
            Opt (Alt (Lit ''weekly'') (Lit ''monthly'')), Star is_space,
            Alt (Lit ''limit'') (Lit ''maximum'')],
      seqs [words [''voc'' @ e_circ, ''atingiu'', ''o''], Plus is_space,
            Alt (Lit ''limite'') (Lit (''m'' @ a_acute @ ''ximo'')), Plus is_space,
            Opt (Alt (Lit ''semanal'') (Lit ''mensal''))],
      words [''you've'', ''viewed'', ''the'', ''maximum'', ''number'', ''of'', ''profiles''],
      words [''try'', ''again'', ''later''],
      words [''tente'', ''novamente'', ''mais'', ''tarde''],
      words [''come'', ''back'', ''later'', ''to'', ''view'', ''more'', ''profiles'']]),
    (''security_check'', [
      words [''security'', ''verification''],
      words [''verifica'' @ c_cedil @ a_tilde @ ''o'', ''de'', ''seguran'' @ c_cedil @ ''a''],
      words [''prove'', ''you're'', ''a'', ''person''],
      words [''prove'', ''que'', ''voc'' @ e_circ, e_acute, ''humano''],
      Lit ''captcha'',
      words [''are'', ''you'', ''a'', ''robot''],
      words [''voc'' @ e_circ, e_acute, ''um'', ''rob'' @ o_circ],
      words [''unusual'', ''activity''],
      words [''atividade'', ''incomum'']]),
    (''login_required'', [
      words [''please'', ''log'', ''in'', ''to'', ''continue''],
      words [''fa'' @ c_cedil @ ''a'', ''login'', ''para'', ''continuar''],
      words [''join'', ''now'', ''to'', ''view''],
      words [''cadastre-se'', ''para'', ''ver''],
      words [''sign'', ''in'', ''to'', ''view''],
      words [''entrar'', ''para'', ''ver'']]),
    (''account_restricted'', [
      words [''your'', ''account'', ''has'', ''been'', ''restricted''],
      words [''sua'', ''conta'', ''foi'', ''restrita''],
      words [''account'', ''temporarily'', ''restricted''],
      words [''conta'', ''temporariamente'', ''restrita''],
      words [''suspicious'', ''activity''],
      words [''atividade'', ''suspeita''],
      words [''we've'', ''noticed'', ''some'', ''unusual'', ''activity''],
      words [''notamos'', ''alguma'', ''atividade'', ''incomum'']]),
    (''not_found'', [
      words [''page'', ''not'', ''found''],
      words [''p'' @ a_acute @ ''gina'', ''n'' @ a_tilde @ ''o'', ''encontrada''],
      words [''this'', ''page'', ''doesn't'', ''exist''],
      words [''esta'', ''p'' @ a_acute @ ''gina'', ''n'' @ a_tilde @ ''o'', ''existe''],
      words [''hmm,'', ''we'', ''can't'', ''reach'', ''this'', ''page''],
      words [''hmm,'', ''n'' @ a_tilde @ ''o'', ''conseguimos'', ''acessar'', ''esta'',
             ''p'' @ a_acute @ ''gina'']]),
    (''private_profile'', [
      words [''this'', ''profile'', ''is'', ''not'', ''available''],
      words [''este'', ''perfil'', ''n'' @ a_tilde @ ''o'', ''est'' @ a_acute,
             ''dispon'' @ i_acute @ ''vel''],
      words [''out'', ''of'', ''your'', ''network''],
      words [''fora'', ''da'', ''sua'', ''rede''],
      words [''to'', ''see'', ''this'', ''profile,'', ''upgrade'', ''to'', ''premium''],
      words [''para'', ''ver'', ''este'', ''perfil,'', ''atualize'', ''para'', ''o'', ''premium'']]),
    (''ip_block'', [
      words [''we've'', ''detected'', ''unusual'', ''activity'', ''from'', ''your'', ''network''],
      words [''detectamos'', ''atividade'', ''incomum'', ''da'', ''sua'', ''rede''],
      words [''your'', ''IP'', ''address'', ''has'', ''been'', ''temporarily'', ''blocked''],
      words [''seu'', ''endere'' @ c_cedil @ ''o'', ''IP'', ''foi'', ''temporariamente'',
             ''bloqueado''],
      words [''too'', ''many'', ''requests''],
      words [''muitas'', ''solicita'' @ c_cedil @ o_tilde @ ''es'']])]"

definition HTML_INDICATORS :: "(string \<times> string list) list" where
  "HTML_INDICATORS = [
    (''rate_limit'', [''.limit-reached'', ''.search-limit'', ''.limit-hit'',
                      ''[data-test-limit-reached]'']),
    (''security_check'', [''.challenge'', ''.captcha-container'', ''#captcha'',
                          ''.security-verification'', ''[data-test-security-check]'']),
    (''login_required'', [''.login-form'', ''.join-form'', ''.sign-in-card'',
                          ''[data-test-login-required]'']),
    (''account_restricted'', [''.restricted-account'', ''.account-suspended'',
                              ''[data-test-account-restricted]'']),
    (''not_found'', [''.not-found'', ''.error-404'', ''[data-test-404]'', ''.page-not-found'']),
    (''private_profile'', [''.private-profile'', ''.out-of-network'',
                           ''[data-test-private-profile]'']),
    (''ip_block'', [''.ip-restricted'', ''.too-many-requests'', ''[data-test-ip-block]''])]"

text \<open>In the URL patterns the dot is the regular-expression dot, as the source writes it.\<close>

definition URL_INDICATORS :: "(string \<times> rx list) list" where
  "URL_INDICATORS = [
    (''security_check'', [Lit ''checkpoint/challenge'', Lit ''security/check'', Lit ''captcha'']),
    (''login_required'', [seqs [Lit ''linkedin'', dot, Lit ''com/login''],
                          seqs [Lit ''linkedin'', dot, Lit ''com/checkpoint'']]),
    (''account_restricted'', [seqs [Lit ''linkedin'', dot, Lit ''com/checkpoint/restricted''],
                              seqs [Lit ''linkedin'', dot, Lit ''com/suspended'']]),
    (''not_found'', [seqs [Lit ''linkedin'', dot, Lit ''com/404''],
                     seqs [Lit ''linkedin'', dot, Lit ''com/pub/error'']])]"

datatype py_error = KeyError string

type_synonym blocks = "(string \<times> bool) list"

text \<open>\<open>blocks[k]\<close> raises \<open>KeyError\<close> on a missing key; \<open>blocks[k] = True\<close> overwrites the
  entry in place or appends a new one (\<open>AList.update\<close>).\<close>

definition getitem :: "blocks \<Rightarrow> string \<Rightarrow> py_error + bool" where
  "getitem blocks k = (case map_of blocks k of None \<Rightarrow> Inl (KeyError k) | Some v \<Rightarrow> Inr v)"

text \<open>The inner loop of the two pattern checks: \<open>True\<close> when some pattern of the list is
  found in the text.\<close>

definition any_pattern :: "rx list \<Rightarrow> string \<Rightarrow> bool" where
  "any_pattern ps text = list_ex (\<lambda>p. re_search True p text \<noteq> None) ps"

fun pattern_loop :: "(string \<times> rx list) list \<Rightarrow> string \<Rightarrow> blocks \<Rightarrow> blocks" where
  "pattern_loop [] text blocks = blocks"
| "pattern_loop ((block_type, ps) # rest) text blocks =
     pattern_loop rest text
       (if any_pattern ps text then AList.update block_type True blocks else blocks)"

definition check_text_patterns :: "string \<Rightarrow> blocks \<Rightarrow> blocks" where
  "check_text_patterns html blocks = pattern_loop PATTERNS (lower html) blocks"

definition check_url_patterns :: "string \<Rightarrow> blocks \<Rightarrow> blocks" where
  "check_url_patterns url blocks = pattern_loop URL_INDICATORS (lower url) blocks"

text \<open>
  BeautifulSoup is outside the repository: \<open>bs_parse\<close> stands for
  \<open>BeautifulSoup(html, 'html.parser')\<close> and \<open>bs_select\<close> for \<open>soup.select(selector)\<close>,
  giving the \<open>.text\<close> of each selected element; \<open>None\<close> is a raised exception. The
  source catches every exception of this part and keeps what it changed before.
\<close>

fun any_selector :: "('soup \<Rightarrow> string \<Rightarrow> string list option) \<Rightarrow> 'soup \<Rightarrow> string list \<Rightarrow> bool option" where
  "any_selector bs_select soup [] = Some False"
| "any_selector bs_select soup (sel # sels) =
     (case bs_select soup sel of
        None \<Rightarrow> None
      | Some elements \<Rightarrow> if elements \<noteq> [] then Some True else any_selector bs_select soup sels)"

fun selector_loop :: "('soup \<Rightarrow> string \<Rightarrow> string list option) \<Rightarrow> 'soup \<Rightarrow>
    (string \<times> string list) list \<Rightarrow> blocks \<Rightarrow> blocks" where
  "selector_loop bs_select soup [] blocks = blocks"
| "selector_loop bs_select soup ((block_type, sels) # rest) blocks =
     (case any_selector bs_select soup sels of
        None \<Rightarrow> blocks
      | Some found \<Rightarrow>
          selector_loop bs_select soup rest
            (if found then AList.update block_type True blocks else blocks))"

definition check_html_elements :: "(string \<Rightarrow> 'soup option) \<Rightarrow>
    ('soup \<Rightarrow> string \<Rightarrow> string list option) \<Rightarrow> string \<Rightarrow> blocks \<Rightarrow> blocks" where
  "check_html_elements bs_parse bs_select html blocks =
     (case bs_parse html of
        None \<Rightarrow> blocks
      | Some soup \<Rightarrow> selector_loop bs_select soup HTML_INDICATORS blocks)"

definition check_redirects :: "string \<Rightarrow> blocks \<Rightarrow> py_error + blocks" where
  "check_redirects url blocks =
     (case (if py_in ''linkedin.com/login'' url then getitem blocks ''login_required''
            else Inr True) of
        Inl e \<Rightarrow> Inl e
      | Inr login_set \<Rightarrow>
          (let blocks1 = (if py_in ''linkedin.com/login'' url \<and> \<not> login_set
                          then AList.update ''login_required'' True blocks else blocks)
           in case (if py_in ''linkedin.com/checkpoint'' url
                    then getitem blocks1 ''security_check'' else Inr True) of
                Inl e \<Rightarrow> Inl e
              | Inr check_set \<Rightarrow>
                  Inr (if py_in ''linkedin.com/checkpoint'' url \<and> \<not> check_set
                       then AList.update ''security_check'' True blocks1 else blocks1)))"

text \<open>
  The result dictionary and its \<open>details\<close>, one field per key; a field of \<open>details\<close> is
  \<open>None\<close> when the key is absent. The key \<open>wait_time\<close> of \<open>details\<close> is the field
  \<open>wait_time_info\<close> (the recommended action has a \<open>wait_time\<close> of its own), with its
  \<open>value\<close> and \<open>unit\<close> as \<open>wt_value\<close> and \<open>wt_unit\<close>.
\<close>

record wait_info =
  wt_value :: int
  wt_unit :: string

record block_details =
  error_messages :: "string list option"
  wait_time_info :: "wait_info option"

record detection_result =
  is_blocked :: bool
  block_types :: "string list"
  details :: "block_details option"

definition error_selectors :: "string list" where
  "error_selectors = [''.error-message'', ''.alert-error'', ''.alert-warning'',
     ''.notification-text'', ''.message-body'']"

definition wait_time_patterns :: "rx list" where
  "wait_time_patterns = [
     seqs [words [''try'', ''again'', ''in''], Plus is_space, Grp (Plus is_digit), Plus is_space,
           Grp (Alt (Lit ''minutes'') (Alt (Lit ''hours'') (Lit ''days'')))],
     seqs [words [''tente'', ''novamente'', ''em''], Plus is_space, Grp (Plus is_digit),
           Plus is_space, Grp (Alt (Lit ''minutos'') (Alt (Lit ''horas'') (Lit ''dias'')))]]"

text \<open>The error texts of the page: for each selector, each selected element whose stripped
  text is not empty. \<open>None\<close> when a selection raises.\<close>

fun collect_messages :: "('soup \<Rightarrow> string \<Rightarrow> string list option) \<Rightarrow> 'soup \<Rightarrow> string list \<Rightarrow>
    string list \<Rightarrow> string list option" where
  "collect_messages bs_select soup [] acc = Some acc"
| "collect_messages bs_select soup (sel # sels) acc =
     (case bs_select soup sel of
        None \<Rightarrow> None
      | Some elements \<Rightarrow>
          collect_messages bs_select soup sels
            (acc @ map strip (filter (\<lambda>t. strip t \<noteq> []) elements)))"

text \<open>The inner loop over the messages stops at the first message that matches (\<open>break\<close>).\<close>

fun first_wait :: "rx \<Rightarrow> string list \<Rightarrow> wait_info option" where
  "first_wait p [] = None"
| "first_wait p (t # ts) =
     (case re_search True p t of
        Some [num, unit] \<Rightarrow> Some \<lparr>wt_value = py_int num, wt_unit = unit\<rparr>
      | _ \<Rightarrow> first_wait p ts)"

text \<open>The outer loop goes on to the next pattern after that \<open>break\<close>, so a later pattern
  that matches overwrites the entry.\<close>

fun wait_loop :: "rx list \<Rightarrow> string list \<Rightarrow> wait_info option \<Rightarrow> wait_info option" where
  "wait_loop [] msgs w = w"
| "wait_loop (p # ps) msgs w =
     wait_loop ps msgs (case first_wait p msgs of None \<Rightarrow> w | Some w' \<Rightarrow> Some w')"

definition get_block_details :: "(string \<Rightarrow> 'soup option) \<Rightarrow>
    ('soup \<Rightarrow> string \<Rightarrow> string list option) \<Rightarrow> string \<Rightarrow> blocks \<Rightarrow> block_details" where
  "get_block_details bs_parse bs_select html blocks =
     (case bs_parse html of
        None \<Rightarrow> \<lparr>error_messages = None, wait_time_info = None\<rparr>
      | Some soup \<Rightarrow>
          (case collect_messages bs_select soup error_selectors [] of
             None \<Rightarrow> \<lparr>error_messages = None, wait_time_info = None\<rparr>
           | Some msgs \<Rightarrow>
               (let em = (if msgs \<noteq> [] then Some msgs else None) in
                case getitem blocks ''rate_limit'' of
                  Inl e \<Rightarrow> \<lparr>error_messages = em, wait_time_info = None\<rparr>
                | Inr rate_limited \<Rightarrow>
                    \<lparr>error_messages = em,
                     wait_time_info =
                       (if rate_limited then wait_loop wait_time_patterns msgs None else None)\<rparr>)))"

definition detect_blocks :: "(string \<Rightarrow> 'soup option) \<Rightarrow>
    ('soup \<Rightarrow> string \<Rightarrow> string list option) \<Rightarrow> string \<Rightarrow> string \<Rightarrow>
    py_error + detection_result" where
  "detect_blocks bs_parse bs_select html url =
     (let blocks0 = map (\<lambda>block_type. (block_type, False)) (map fst PATTERNS);
          blocks1 = check_text_patterns html blocks0;
          blocks2 = check_html_elements bs_parse bs_select html blocks1;
          blocks3 = check_url_patterns url blocks2
      in case check_redirects url blocks3 of
           Inl e \<Rightarrow> Inl e
         | Inr blocks \<Rightarrow>
             Inr \<lparr>is_blocked = list_ex snd blocks,
                  block_types = map fst (filter snd blocks),
                  details = Some (get_block_details bs_parse bs_select html blocks)\<rparr>)"

text \<open>The recommended action; the \<open>continue\<close> action has no \<open>reason\<close> and no
  \<open>message\<close> key.\<close>

record recommended_action =
  action :: string
  reason :: "string option"
  message :: "string option"
  wait_time :: int

definition get_recommended_action :: "detection_result \<Rightarrow> recommended_action" where
  "get_recommended_action detection_result =
     (if \<not> is_blocked detection_result then
        \<lparr>action = ''continue'', reason = None, message = None, wait_time = 0\<rparr>
      else let bt = block_types detection_result in
      if ''account_restricted'' \<in> set bt then
        \<lparr>action = ''stop'', reason = Some ''account_restricted'',
         message = Some ''Conta restrita. Verifique manualmente sua conta do LinkedIn.'',
         wait_time = 86400\<rparr>
      else if ''ip_block'' \<in> set bt then
        \<lparr>action = ''change_proxy'', reason = Some ''ip_block'',
         message = Some ''IP bloqueado. Troque de proxy antes de continuar.'',
         wait_time = 3600\<rparr>
      else if ''security_check'' \<in> set bt then
        \<lparr>action = ''manual_intervention'', reason = Some ''security_check'',
         message = Some (''Verifica'' @ c_cedil @ a_tilde @ ''o de seguran'' @ c_cedil
           @ ''a detectada. Interven'' @ c_cedil @ a_tilde @ ''o manual necess'' @ a_acute
           @ ''ria.''),
         wait_time = 1800\<rparr>
      else if ''rate_limit'' \<in> set bt then
        \<lparr>action = ''wait'', reason = Some ''rate_limit'',
         message = Some ''Limite de taxa atingido. Aguarde antes de continuar.'',
         wait_time =
           (case details detection_result of
              None \<Rightarrow> 3600
            | Some d \<Rightarrow>
                (case wait_time_info d of
                   None \<Rightarrow> 3600
                 | Some wait_info \<Rightarrow>
                     (let v = wt_value wait_info; unit = wt_unit wait_info in
                      if py_in ''minute'' unit then v * 60
                      else if py_in ''hour'' unit then v * 3600
                      else if py_in ''day'' unit then v * 86400
                      else 3600)))\<rparr>
      else if ''login_required'' \<in> set bt then
        \<lparr>action = ''login'', reason = Some ''login_required'',
         message = Some (''Login necess'' @ a_acute @ ''rio. Tente fazer login novamente.''),
         wait_time = 0\<rparr>
      else if ''not_found'' \<in> set bt then
        \<lparr>action = ''skip'', reason = Some ''not_found'',
         message = Some (''P'' @ a_acute @ ''gina n'' @ a_tilde
           @ ''o encontrada. Pule este perfil.''),
         wait_time = 0\<rparr>
      else if ''private_profile'' \<in> set bt then
        \<lparr>action = ''skip'', reason = Some ''private_profile'',
         message = Some ''Perfil privado ou fora da rede. Pule este perfil.'',
         wait_time = 0\<rparr>
      else
        \<lparr>action = ''wait'', reason = Some ''unknown_block'',
         message = Some ''Bloqueio desconhecido detectado. Aguarde antes de continuar.'',
         wait_time = 1800\<rparr>)"





section \<open>Profile URL extraction (core/profile\_finder.py)\<close>

definition word_or_dash :: "char \<Rightarrow> bool" where
  "word_or_dash c = (is_word c \<or> c = CHR ''-'')"

definition not_quote_or_space :: "char \<Rightarrow> bool" where
  "not_quote_or_space c = (\<not> (c = CHR 0x22 \<or> c = CHR 0x27 \<or> is_space c))"

definition profile_pattern :: rx where
  "profile_pattern = seqs [Lit ''http'', Opt (Lit ''s''), Lit ''://'', Opt (Lit ''www.''),
     Lit ''linkedin.com/in/'', Plus word_or_dash, Opt (Lit ''/''), Star not_quote_or_space]"

text \<open>The length of the match that starts at the head of the subject, when there is one.\<close>

definition match_here :: "bool \<Rightarrow> rx \<Rightarrow> string \<Rightarrow> nat option" where
  "match_here ic r s =
     (case rx_run ic r s of [] \<Rightarrow> None | (g, rest) # _ \<Rightarrow> Some (length s - length rest))"

text \<open>\<open>re.findall\<close> for a pattern without groups: the matched texts, left to right, each
  search starting where the previous match ended (one character further after an empty
  match; the patterns of the source match no empty text).\<close>

function findall :: "bool \<Rightarrow> rx \<Rightarrow> string \<Rightarrow> string list" where
  "findall ic r s =
     (case match_here ic r s of
        None \<Rightarrow> (case s of [] \<Rightarrow> [] | c # cs \<Rightarrow> findall ic r cs)
      | Some n \<Rightarrow>
          take n s # (if n = 0 then (case s of [] \<Rightarrow> [] | c # cs \<Rightarrow> findall ic r cs)
                      else findall ic r (drop n s)))"
  by pat_completeness auto
termination
proof (relation "measure (\<lambda>(ic, r, s). length s)")
  show "wf (measure (\<lambda>(ic, r, s). length s))" by simp
next
  fix ic r s c cs
  assume "s = c # cs"
  then show "((ic, r, cs), (ic, r, s)) \<in> measure (\<lambda>(ic, r, s). length s)" by simp
next
  fix ic r s n c cs
  assume "s = c # cs"
  then show "((ic, r, cs), (ic, r, s)) \<in> measure (\<lambda>(ic, r, s). length s)" by simp
next
  fix ic r s n
  assume m: "match_here ic r s = Some n" and n: "n \<noteq> 0"
  from m have "n \<le> length s"
    by (auto simp: match_here_def split: list.splits)
  with n show "((ic, r, drop n s), (ic, r, s)) \<in> measure (\<lambda>(ic, r, s). length s)" by simp
qed

declare findall.simps [simp del]

text \<open>\<open>list(dict.fromkeys(matches))\<close>: a dictionary keeps its keys in the order they were
  first inserted.\<close>

definition fromkeys :: "string list \<Rightarrow> string list" where
  "fromkeys keys = foldl (\<lambda>d k. if k \<in> set d then d else d @ [k]) [] keys"

definition extract_linkedin_profile_urls :: "string \<Rightarrow> string list" where
  "extract_linkedin_profile_urls html = fromkeys (findall False profile_pattern html)"

definition dq :: string where "dq = [CHR 0x22]"
definition nl :: string where "nl = [CHR 0x0A]"

definition test_html :: string where
  "test_html = nl @ ''    <html>'' @ nl @ ''    <body>'' @ nl
     @ ''        <a href='' @ dq @ ''https://www.linkedin.com/in/profile1/'' @ dq @ ''>Profile 1</a>'' @ nl
     @ ''        <a href='' @ dq @ ''https://linkedin.com/in/profile2/'' @ dq @ ''>Profile 2</a>'' @ nl
     @ ''        <a href='' @ dq @ ''https://www.linkedin.com/in/profile3'' @ dq @ ''>Profile 3</a>'' @ nl
     @ ''        <a href='' @ dq @ ''https://www.linkedin.com/company/company1/'' @ dq @ ''>Company 1</a>'' @ nl
     @ ''    </body>'' @ nl @ ''    </html>'' @ nl @ ''    ''"


text \<open>
  What a pattern can match, as a set of texts, to state what the matcher's results are; and
  the specification's reading of the deduplication: every repeat of an earlier element is
  dropped, the first occurrences stay in their order.
\<close>

fun rx_lang :: "bool \<Rightarrow> rx \<Rightarrow> string set" where
  "rx_lang ic Eps = {[]}"
| "rx_lang ic (Lit l) = {m. length m = length l \<and> lit_match ic l m}"
| "rx_lang ic (Cls p) = {m. \<exists>c. m = [c] \<and> p c}"
| "rx_lang ic (Seq a b) = {m. \<exists>m1 m2. m = m1 @ m2 \<and> m1 \<in> rx_lang ic a \<and> m2 \<in> rx_lang ic b}"
| "rx_lang ic (Alt a b) = rx_lang ic a \<union> rx_lang ic b"
| "rx_lang ic (Opt a) = insert [] (rx_lang ic a)"
| "rx_lang ic (Star p) = {m. list_all p m}"
| "rx_lang ic (Plus p) = {m. m \<noteq> [] \<and> list_all p m}"
| "rx_lang ic (Grp a) = rx_lang ic a"

fun first_seen :: "'a list \<Rightarrow> 'a list" where
  "first_seen [] = []"
| "first_seen (x # xs) = x # first_seen (filter (\<lambda>y. y \<noteq> x) xs)"

definition profile_prefixes :: "string list" where
  "profile_prefixes = [''http://linkedin.com/in/'', ''http://www.linkedin.com/in/'',
     ''https://linkedin.com/in/'', ''https://www.linkedin.com/in/'']"

section \<open>Retry with backoff (utils/error\_handling.py)\<close>

text \<open>
  The wrapped action is any effectful call: it takes the state of the world and gives its
  outcome (\<open>Inl\<close> an exception, \<open>Inr\<close> a value) and the new state. \<open>retryable e\<close> is
  \<open>isinstance(e, exceptions)\<close>. The loop's own effects are kept beside the world: the
  number of invocations and the sleeps it asked for, \<open>jitter attempt\<close> being the draw of
  \<open>random.uniform(0.8, 1.2)\<close> at that attempt. A call ends in a value, in an exception, or,
  when \<open>range(max_retries + 1)\<close> is empty, by falling off the loop, which returns \<open>None\<close>
  without a single invocation.
\<close>

datatype ('e, 'a) outcome = Returned 'a | Raised 'e | ReturnedNone

record 's retry_state =
  world :: 's
  calls :: nat
  sleeps :: "rat list"

fun retry_loop :: "('s \<Rightarrow> ('e + 'a) \<times> 's) \<Rightarrow> ('e \<Rightarrow> bool) \<Rightarrow> (nat \<Rightarrow> rat) \<Rightarrow> int \<Rightarrow> rat \<Rightarrow>
    nat list \<Rightarrow> rat \<Rightarrow> 's retry_state \<Rightarrow> ('e, 'a) outcome \<times> 's retry_state" where
  "retry_loop func retryable jitter max_retries backoff_factor [] delay st = (ReturnedNone, st)"
| "retry_loop func retryable jitter max_retries backoff_factor (attempt # rest) delay st =
     (case func (world st) of
        (Inr v, w) \<Rightarrow> (Returned v, st\<lparr>world := w, calls := calls st + 1\<rparr>)
      | (Inl e, w) \<Rightarrow>
          if \<not> retryable e then (Raised e, st\<lparr>world := w, calls := calls st + 1\<rparr>)
          else if int attempt < max_retries then
            retry_loop func retryable jitter max_retries backoff_factor rest
              (delay * backoff_factor)
              (st\<lparr>world := w, calls := calls st + 1,
                  sleeps := sleeps st @ [delay * jitter attempt]\<rparr>)
          else (Raised e, st\<lparr>world := w, calls := calls st + 1\<rparr>))"

definition retry_async :: "('s \<Rightarrow> ('e + 'a) \<times> 's) \<Rightarrow> int \<Rightarrow> rat \<Rightarrow> ('e \<Rightarrow> bool) \<Rightarrow> rat \<Rightarrow>
    (nat \<Rightarrow> rat) \<Rightarrow> 's \<Rightarrow> ('e, 'a) outcome \<times> 's retry_state" where
  "retry_async func max_retries retry_delay retryable backoff_factor jitter w =
     retry_loop func retryable jitter max_retries backoff_factor
       [0 ..< nat (max_retries + 1)] retry_delay \<lparr>world = w, calls = 0, sleeps = []\<rparr>"

text \<open>The world after \<open>n\<close> invocations of the action, and the outcome of the next one.\<close>

fun after :: "('s \<Rightarrow> ('e + 'a) \<times> 's) \<Rightarrow> 's \<Rightarrow> nat \<Rightarrow> 's" where
  "after func w 0 = w"
| "after func w (Suc n) = after func (snd (func w)) n"

definition nth_outcome :: "('s \<Rightarrow> ('e + 'a) \<times> 's) \<Rightarrow> 's \<Rightarrow> nat \<Rightarrow> 'e + 'a" where
  "nth_outcome func w n = fst (func (after func w n))"

text \<open>The first \<open>k\<close> invocations all fail with a retryable exception.\<close>

fun fails_first :: "('s \<Rightarrow> ('e + 'a) \<times> 's) \<Rightarrow> ('e \<Rightarrow> bool) \<Rightarrow> 's \<Rightarrow> nat \<Rightarrow> bool" where
  "fails_first func retryable w 0 = True"
| "fails_first func retryable w (Suc k) =
     (case func w of
        (Inl e, w') \<Rightarrow> retryable e \<and> fails_first func retryable w' k
      | (Inr v, w') \<Rightarrow> False)"

text \<open>An action that fails twice and then succeeds: its state counts the invocations.\<close>

definition flaky :: "nat \<Rightarrow> (string + nat) \<times> nat" where
  "flaky n = (if n < 2 then Inl ''timeout'' else Inr 42, n + 1)"

section \<open>Similarity ratio (Python's difflib)\<close>

text \<open>
  \<open>SequenceMatcher(None, a, b).ratio()\<close> is \<open>2.0 * M / T\<close>: \<open>T\<close> the two lengths added,
  \<open>M\<close> the sizes of the matching blocks added (1.0 when both texts are empty). The blocks
  come from \<open>find_longest_match\<close> on the whole range and then, recursively, on what is
  left of the block and on what is right of it. The library is outside the repository;
  the model follows CPython's \<open>difflib\<close>: no junk predicate, and when \<open>b\<close> has 200
  elements or more, the elements that make up more than 1\% of it (plus one) start no
  block. The library also merges adjacent blocks and appends a block of size 0, neither of
  which changes \<open>M\<close>. Quotients and scores are exact rationals where Python has floats.
\<close>

definition popular :: "string \<Rightarrow> char \<Rightarrow> bool" where
  "popular b elt = (200 \<le> length b \<and> length b div 100 + 1 < count_list b elt)"

definition b2j :: "string \<Rightarrow> char \<Rightarrow> nat list" where
  "b2j b elt = (if popular b elt then [] else filter (\<lambda>j. b ! j = elt) [0 ..< length b])"

text \<open>A block \<open>(i, j, k)\<close>: \<open>a[i:i+k] == b[j:j+k]\<close>.\<close>

type_synonym match = "nat \<times> nat \<times> nat"

text \<open>
  The double loop of \<open>find_longest_match\<close>: \<open>j2len j\<close> is the length of the longest block
  ending at \<open>a[i-1]\<close> and \<open>b[j]\<close> (0 for a missing key); the inner loop runs over the
  positions of \<open>a[i]\<close> in \<open>b\<close>, in increasing order, skips those below \<open>blo\<close> and stops
  at the first one from \<open>bhi\<close> on.
\<close>

definition dp_step :: "nat \<Rightarrow> nat \<Rightarrow> (nat \<Rightarrow> nat) \<Rightarrow> (nat \<Rightarrow> nat) \<times> match \<Rightarrow> nat \<Rightarrow>
    (nat \<Rightarrow> nat) \<times> match" where
  "dp_step blo i j2len st j =
     (case st of (newj2len, besti, bestj, bestsize) \<Rightarrow>
        if j < blo then st
        else let k = (if j = 0 then 0 else j2len (j - 1)) + 1 in
          (newj2len(j := k),
           if bestsize < k then (i + 1 - k, j + 1 - k, k) else (besti, bestj, bestsize)))"

definition dp_row :: "string \<Rightarrow> string \<Rightarrow> nat \<Rightarrow> nat \<Rightarrow> (nat \<Rightarrow> nat) \<times> match \<Rightarrow> nat \<Rightarrow>
    (nat \<Rightarrow> nat) \<times> match" where
  "dp_row a b blo bhi st i =
     (case st of (j2len, best) \<Rightarrow>
        foldl (dp_step blo i j2len) (\<lambda>j. 0, best)
          (takeWhile (\<lambda>j. j < bhi) (b2j b (a ! i))))"

definition dp :: "string \<Rightarrow> string \<Rightarrow> nat \<Rightarrow> nat \<Rightarrow> nat \<Rightarrow> nat \<Rightarrow> match" where
  "dp a b alo ahi blo bhi =
     snd (foldl (dp_row a b blo bhi) (\<lambda>j. 0, alo, blo, 0) [alo ..< ahi])"

text \<open>The two loops that extend the best block at both ends while the elements agree
  (with no junk predicate the two further loops, over junk elements, never run).\<close>

function extend_back :: "string \<Rightarrow> string \<Rightarrow> nat \<Rightarrow> nat \<Rightarrow> match \<Rightarrow> match" where
  "extend_back a b alo blo (besti, bestj, bestsize) =
     (if alo < besti \<and> blo < bestj \<and> a ! (besti - 1) = b ! (bestj - 1)
      then extend_back a b alo blo (besti - 1, bestj - 1, bestsize + 1)
      else (besti, bestj, bestsize))"
  by pat_completeness auto
termination
  by (relation "measure (\<lambda>(a, b, alo, blo, besti, bestj, bestsize). besti)") auto

function extend_forward :: "string \<Rightarrow> string \<Rightarrow> nat \<Rightarrow> nat \<Rightarrow> match \<Rightarrow> match" where
  "extend_forward a b ahi bhi (besti, bestj, bestsize) =
     (if besti + bestsize < ahi \<and> bestj + bestsize < bhi
         \<and> a ! (besti + bestsize) = b ! (bestj + bestsize)
      then extend_forward a b ahi bhi (besti, bestj, bestsize + 1)
      else (besti, bestj, bestsize))"
  by pat_completeness auto
termination
  by (relation "measure (\<lambda>(a, b, ahi, bhi, besti, bestj, bestsize). ahi - (besti + bestsize))")
    auto

declare extend_back.simps [simp del] extend_forward.simps [simp del]

definition find_longest_match :: "string \<Rightarrow> string \<Rightarrow> nat \<Rightarrow> nat \<Rightarrow> nat \<Rightarrow> nat \<Rightarrow> match" where
  "find_longest_match a b alo ahi blo bhi =
     extend_forward a b ahi bhi (extend_back a b alo blo (dp a b alo ahi blo bhi))"


text \<open>What the search keeps true of its best block: it lies inside both ranges, and a block
  of size 0 is still the starting one.\<close>

definition inside :: "nat \<Rightarrow> nat \<Rightarrow> nat \<Rightarrow> nat \<Rightarrow> match \<Rightarrow> bool" where
  "inside alo ahi blo bhi m =
     (case m of (i, j, k) \<Rightarrow>
        alo \<le> i \<and> blo \<le> j \<and> (if k = 0 then i = alo \<and> j = blo else i + k \<le> ahi \<and> j + k \<le> bhi))"

definition row_bound :: "nat \<Rightarrow> nat \<Rightarrow> nat \<Rightarrow> (nat \<Rightarrow> nat) \<Rightarrow> bool" where
  "row_bound alo blo n f = (\<forall>j. f j \<le> n - alo \<and> f j \<le> j + 1 - blo)"

lemma dp_step_inv:
  assumes old: "row_bound alo blo i j2len" and i: "alo \<le> i" "i < ahi" and j: "j < bhi"
    and new: "row_bound alo blo (i + 1) newj2len" and best: "inside alo ahi blo bhi best"
  shows "row_bound alo blo (i + 1) (fst (dp_step blo i j2len (newj2len, best) j))
       \<and> inside alo ahi blo bhi (snd (dp_step blo i j2len (newj2len, best) j))"
proof (cases "j < blo")
  case True
  with new best show ?thesis by (simp add: dp_step_def split: prod.splits)
next
  case False
  obtain bi bj bs where b: "best = (bi, bj, bs)" by (cases best)
  define k where "k = (if j = 0 then 0 else j2len (j - 1)) + 1"
  have p1: "(if j = 0 then 0 else j2len (j - 1)) \<le> i - alo"
    using old by (simp add: row_bound_def)
  have k1: "k \<le> i + 1 - alo"
    using p1 i by (simp add: k_def)
  have p2: "(if j = 0 then 0 else j2len (j - 1)) \<le> j - blo"
  proof (cases "j = 0")
    case True
    then show ?thesis by simp
  next
    case j0: False
    from old have "j2len (j - 1) \<le> (j - 1) + 1 - blo" unfolding row_bound_def by blast
    with j0 show ?thesis by simp
  qed
  have k2: "k \<le> j + 1 - blo"
    using p2 False by (simp add: k_def)
  have kpos: "0 < k" by (simp add: k_def)
  have res: "dp_step blo i j2len (newj2len, best) j
      = (newj2len(j := k), if bs < k then (i + 1 - k, j + 1 - k, k) else (bi, bj, bs))"
    using False by (simp add: dp_step_def b k_def Let_def)
  have "row_bound alo blo (i + 1) (newj2len(j := k))"
    using new k1 k2 by (simp add: row_bound_def)
  moreover have "inside alo ahi blo bhi (i + 1 - k, j + 1 - k, k)"
  proof -
    have "alo \<le> i + 1 - k" using k1 i by arith
    moreover have "blo \<le> j + 1 - k" using k2 False by arith
    moreover have "i + 1 - k + k \<le> ahi" using k1 i by arith
    moreover have "j + 1 - k + k \<le> bhi" using k2 j False by arith
    ultimately show ?thesis using kpos by (simp add: inside_def)
  qed
  ultimately show ?thesis using res best b by simp
qed

lemma dp_row_fold_inv:
  assumes old: "row_bound alo blo i j2len" and i: "alo \<le> i" "i < ahi"
    and js: "\<forall>j \<in> set js. j < bhi"
    and new: "row_bound alo blo (i + 1) (fst st)" and best: "inside alo ahi blo bhi (snd st)"
  shows "row_bound alo blo (i + 1) (fst (foldl (dp_step blo i j2len) st js))
       \<and> inside alo ahi blo bhi (snd (foldl (dp_step blo i j2len) st js))"
  using js new best
proof (induction js arbitrary: st)
  case Nil
  then show ?case by simp
next
  case (Cons j js)
  obtain f m where st: "st = (f, m)" by (cases st)
  from Cons.prems have j: "j < bhi" by simp
  from dp_step_inv [OF old i j, of f m] Cons.prems(2,3) st
  have "row_bound alo blo (i + 1) (fst (dp_step blo i j2len st j))"
    "inside alo ahi blo bhi (snd (dp_step blo i j2len st j))"
    by simp_all
  with Cons.IH [of "dp_step blo i j2len st j"] Cons.prems(1) show ?case by simp
qed

lemma dp_row_inv:
  assumes "row_bound alo blo i (fst st)" and "alo \<le> i" "i < ahi"
    and "inside alo ahi blo bhi (snd st)"
  shows "row_bound alo blo (i + 1) (fst (dp_row a b blo bhi st i))
       \<and> inside alo ahi blo bhi (snd (dp_row a b blo bhi st i))"
proof -
  obtain f m where st: "st = (f, m)" by (cases st)
  have js: "\<forall>j \<in> set (takeWhile (\<lambda>j. j < bhi) (b2j b (a ! i))). j < bhi"
    by (meson set_takeWhileD)
  have new: "row_bound alo blo (i + 1) (fst (\<lambda>j. 0 :: nat, m))"
    by (simp add: row_bound_def)
  have old: "row_bound alo blo i f" using assms(1) st by simp
  have best: "inside alo ahi blo bhi (snd (\<lambda>j. 0 :: nat, m))" using assms(4) st by simp
  from dp_row_fold_inv [OF old assms(2,3) js new best]
  show ?thesis by (simp add: dp_row_def st)
qed

lemma dp_fold_inv:
  assumes "row_bound alo blo m (fst st)" and "alo \<le> m" and "inside alo ahi blo bhi (snd st)"
  shows "inside alo ahi blo bhi (snd (foldl (dp_row a b blo bhi) st [m ..< ahi]))"
  using assms
proof (induction "ahi - m" arbitrary: m st)
  case 0
  then show ?case by simp
next
  case (Suc n)
  then have lt: "m < ahi" by simp
  from dp_row_inv [OF Suc.prems(1,2) lt Suc.prems(3)]
  have "row_bound alo blo (Suc m) (fst (dp_row a b blo bhi st m))"
    "inside alo ahi blo bhi (snd (dp_row a b blo bhi st m))"
    by simp_all
  moreover have "n = ahi - Suc m" using Suc.hyps(2) by simp
  moreover have "alo \<le> Suc m" using Suc.prems(2) by simp
  ultimately have "inside alo ahi blo bhi
      (snd (foldl (dp_row a b blo bhi) (dp_row a b blo bhi st m) [Suc m ..< ahi]))"
    using Suc.hyps(1) by blast
  with lt show ?case by (simp add: upt_conv_Cons)
qed

lemma dp_inside: "inside alo ahi blo bhi (dp a b alo ahi blo bhi)"
  unfolding dp_def
  by (rule dp_fold_inv) (simp_all add: row_bound_def inside_def)

lemma extend_back_inside:
  "inside alo ahi blo bhi m \<Longrightarrow> inside alo ahi blo bhi (extend_back a b alo blo m)"
proof (induction a b alo blo m rule: extend_back.induct)
  case (1 a b alo blo besti bestj bestsize)
  note unfold = extend_back.simps [of a b alo blo besti bestj bestsize]
  show ?case
  proof (cases "alo < besti \<and> blo < bestj \<and> a ! (besti - 1) = b ! (bestj - 1)")
    case True
    with "1.prems" have "inside alo ahi blo bhi (besti - 1, bestj - 1, bestsize + 1)"
      by (auto simp: inside_def split: if_splits)
    with "1.IH" True unfold show ?thesis by simp
  next
    case False
    then have "extend_back a b alo blo (besti, bestj, bestsize) = (besti, bestj, bestsize)"
      using unfold by auto
    with "1.prems" show ?thesis by simp
  qed
qed

lemma extend_forward_inside:
  "inside alo ahi blo bhi m \<Longrightarrow> inside alo ahi blo bhi (extend_forward a b ahi bhi m)"
proof (induction a b ahi bhi m rule: extend_forward.induct)
  case (1 a b ahi bhi besti bestj bestsize)
  note unfold = extend_forward.simps [of a b ahi bhi besti bestj bestsize]
  show ?case
  proof (cases "besti + bestsize < ahi \<and> bestj + bestsize < bhi
      \<and> a ! (besti + bestsize) = b ! (bestj + bestsize)")
    case True
    with "1.prems" have "inside alo ahi blo bhi (besti, bestj, bestsize + 1)"
      by (auto simp: inside_def split: if_splits)
    with "1.IH" True unfold show ?thesis by simp
  next
    case False
    then have "extend_forward a b ahi bhi (besti, bestj, bestsize) = (besti, bestj, bestsize)"
      using unfold by auto
    with "1.prems" show ?thesis by simp
  qed
qed

lemma find_longest_match_inside:
  "inside alo ahi blo bhi (find_longest_match a b alo ahi blo bhi)"
  unfolding find_longest_match_def
  by (intro extend_forward_inside extend_back_inside dp_inside)

lemma find_longest_match_bounds:
  assumes "find_longest_match a b alo ahi blo bhi = (i, j, k)" and "k \<noteq> 0"
  shows "alo \<le> i \<and> i + k \<le> ahi \<and> blo \<le> j \<and> j + k \<le> bhi"
  using find_longest_match_inside [of alo ahi blo bhi a b] assms
  by (simp add: inside_def)

function matching_blocks :: "string \<Rightarrow> string \<Rightarrow> nat \<Rightarrow> nat \<Rightarrow> nat \<Rightarrow> nat \<Rightarrow> match list" where
  "matching_blocks a b alo ahi blo bhi =
     (case find_longest_match a b alo ahi blo bhi of
        (i, j, k) \<Rightarrow>
          if k = 0 then []
          else (if alo < i \<and> blo < j then matching_blocks a b alo i blo j else [])
             @ [(i, j, k)]
             @ (if i + k < ahi \<and> j + k < bhi then matching_blocks a b (i + k) ahi (j + k) bhi
                else []))"
  by pat_completeness auto
termination
proof (relation "measure (\<lambda>(a, b, alo, ahi, blo, bhi). ahi - alo)")
  show "wf (measure (\<lambda>(a, b, alo, ahi, blo, bhi). ahi - alo))" by simp
next
  fix a b :: string and alo ahi blo bhi x i y j k
  assume "(i, y) = find_longest_match a b alo ahi blo bhi" "(j, k) = y" "k \<noteq> 0"
    "alo < i \<and> blo < j"
  then show "((a, b, alo, i, blo, j), (a, b, alo, ahi, blo, bhi))
      \<in> measure (\<lambda>(a, b, alo, ahi, blo, bhi). ahi - alo)"
    using find_longest_match_bounds [of a b alo ahi blo bhi i j k] by auto
next
  fix a b :: string and alo ahi blo bhi x i y j k
  assume "(i, y) = find_longest_match a b alo ahi blo bhi" "(j, k) = y" "k \<noteq> 0"
    "i + k < ahi \<and> j + k < bhi"
  then show "((a, b, i + k, ahi, j + k, bhi), (a, b, alo, ahi, blo, bhi))
      \<in> measure (\<lambda>(a, b, alo, ahi, blo, bhi). ahi - alo)"
    using find_longest_match_bounds [of a b alo ahi blo bhi i j k] by auto
qed

declare matching_blocks.simps [simp del]

definition ratio :: "string \<Rightarrow> string \<Rightarrow> rat" where
  "ratio a b =
     (let matches = sum_list (map (\<lambda>(i, j, k). k)
            (matching_blocks a b 0 (length a) 0 (length b)));
          total = length a + length b
      in if total = 0 then 1 else 2 * of_nat matches / of_nat total)"


section \<open>Confidence score (utils/confidence\_calculator.py)\<close>

text \<open>
  \<open>unicodedata.normalize('NFKD', text).encode('ASCII', 'ignore').decode('ASCII')\<close> on the
  code points 0 to 255: an ASCII character stays; a letter with a diacritic is decomposed
  and keeps its base letter; the spacing diacritics and the no-break space keep a space;
  superscripts, ordinal indicators and fractions keep their digits and letters; every
  other character has no ASCII part and is dropped.
\<close>

definition ascii_fold :: "char \<Rightarrow> string" where
  "ascii_fold c = (let n = code c in
     if n < 128 then [c]
     else if n = 160 \<or> n = 168 \<or> n = 175 \<or> n = 180 \<or> n = 184 then '' ''
     else if n = 170 then ''a'' else if n = 178 then ''2'' else if n = 179 then ''3''
     else if n = 185 then ''1'' else if n = 186 then ''o''
     else if n = 188 then ''14'' else if n = 189 then ''12'' else if n = 190 then ''34''
     else if 192 \<le> n \<and> n \<le> 197 then ''A'' else if n = 199 then ''C''
     else if 200 \<le> n \<and> n \<le> 203 then ''E'' else if 204 \<le> n \<and> n \<le> 207 then ''I''
     else if n = 209 then ''N'' else if 210 \<le> n \<and> n \<le> 214 then ''O''
     else if 217 \<le> n \<and> n \<le> 220 then ''U'' else if n = 221 then ''Y''
     else if 224 \<le> n \<and> n \<le> 229 then ''a'' else if n = 231 then ''c''
     else if 232 \<le> n \<and> n \<le> 235 then ''e'' else if 236 \<le> n \<and> n \<le> 239 then ''i''
     else if n = 241 then ''n'' else if 242 \<le> n \<and> n \<le> 246 then ''o''
     else if 249 \<le> n \<and> n \<le> 252 then ''u'' else if n = 253 \<or> n = 255 then ''y''
     else [])"

definition normalize_text :: "string \<Rightarrow> string" where
  "normalize_text text = strip (lower (concat (map ascii_fold text)))"

text \<open>A dictionary with text keys and values, in insertion order; \<open>d.get(k, default)\<close>.\<close>

type_synonym dict = "(string \<times> string) list"

definition get :: "dict \<Rightarrow> string \<Rightarrow> string \<Rightarrow> string" where
  "get d k dflt = (case map_of d k of None \<Rightarrow> dflt | Some v \<Rightarrow> v)"

text \<open>The scraped profile: a field is \<open>None\<close> when the dictionary has no such key.\<close>

record profile_data =
  full_name :: "string option"
  headline :: "string option"
  experience :: "dict list option"
  education :: "dict list option"
  skills :: "string list option"

definition or_default :: "'a option \<Rightarrow> 'a \<Rightarrow> 'a" where
  "or_default field dflt = (case field of None \<Rightarrow> dflt | Some v \<Rightarrow> v)"

definition check_initials :: "string \<Rightarrow> string \<Rightarrow> bool" where
  "check_initials input_name profile_name =
     (concat (map (take 1) (split input_name)) = concat (map (take 1) (split profile_name)))"

definition get_current_experience :: "dict list \<Rightarrow> dict option" where
  "get_current_experience experiences =
     (case experiences of [] \<Rightarrow> None | e # _ \<Rightarrow> Some e)"

definition compare_names :: "string \<Rightarrow> string \<Rightarrow> rat" where
  "compare_names input_name0 profile_name0 =
     (if input_name0 = [] \<or> profile_name0 = [] then 0
      else let input_name = normalize_text input_name0;
               profile_name = normalize_text profile_name0 in
        if input_name = profile_name then 1
        else if set (split input_name) \<subseteq> set (split profile_name) then 9 / 10
        else let input_parts = split input_name; profile_parts = split profile_name in
          if 2 \<le> length input_parts \<and> 2 \<le> length profile_parts
             \<and> hd input_parts = hd profile_parts \<and> last input_parts = last profile_parts
          then 8 / 10
          else let similarity = ratio input_name profile_name in
            if 7 / 10 < similarity then similarity
            else if check_initials input_name profile_name then 6 / 10
            else similarity)"

text \<open>The part of \<open>_compare_company\<close> on the current experience: \<open>Some\<close> score when it
  returns there, \<open>None\<close> when control falls through to the scan of all experiences. An
  empty dictionary is falsy, so it is skipped.\<close>

definition company_current :: "string \<Rightarrow> dict option \<Rightarrow> rat option" where
  "company_current input_company current_experience =
     (case current_experience of
        None \<Rightarrow> None
      | Some entry \<Rightarrow>
          if entry = [] then None
          else let company_name = normalize_text (get entry ''company'' '''') in
            if input_company = company_name then Some 1
            else let similarity = ratio input_company company_name in
              if 7 / 10 < similarity then Some similarity
              else if py_in input_company company_name \<or> py_in company_name input_company
              then Some (8 / 10)
              else None)"

fun company_scan :: "string \<Rightarrow> dict list \<Rightarrow> rat \<Rightarrow> rat" where
  "company_scan input_company [] max_similarity = max_similarity"
| "company_scan input_company (entry # exps) max_similarity =
     (let company_name = normalize_text (get entry ''company'' '''') in
      if input_company = company_name then 9 / 10
      else let similarity = ratio input_company company_name;
               m = max max_similarity similarity in
        company_scan input_company exps
          (if py_in input_company company_name \<or> py_in company_name input_company
           then max m (7 / 10) else m))"

definition compare_company :: "string \<Rightarrow> dict list \<Rightarrow> rat" where
  "compare_company input_company0 experiences =
     (if input_company0 = [] \<or> experiences = [] then 0
      else let input_company = normalize_text input_company0 in
        case company_current input_company (get_current_experience experiences) of
          Some score \<Rightarrow> score
        | None \<Rightarrow> company_scan input_company experiences 0)"

text \<open>The pattern \<open>^([^@]+)@\<close> and the four patterns built from the first and last name.\<close>

definition email_pattern :: rx where
  "email_pattern = Seq (Grp (Plus (\<lambda>c. c \<noteq> CHR ''@''))) (Lit ''@'')"

definition name_patterns :: "string \<Rightarrow> string \<Rightarrow> string list" where
  "name_patterns first_name last_name =
     [first_name @ ''.'' @ last_name, first_name @ ''_'' @ last_name,
      first_name @ last_name, take 1 first_name @ last_name]"

fun pattern_scan :: "string \<Rightarrow> string list \<Rightarrow> rat option" where
  "pattern_scan username [] = None"
| "pattern_scan username (pattern # patterns) =
     (if username = pattern then Some (9 / 10)
      else if 8 / 10 < ratio username pattern then Some (7 / 10)
      else pattern_scan username patterns)"

definition domain_hit :: "string \<Rightarrow> dict option \<Rightarrow> bool" where
  "domain_hit email_domain current_experience =
     (case current_experience of
        None \<Rightarrow> False
      | Some entry \<Rightarrow>
          if entry = [] then False
          else let company_name = lower (normalize_text (get entry ''company'' ''''));
                   company_words = findall False (Plus is_word) company_name
               in list_ex (\<lambda>word. 3 < length word \<and> py_in word email_domain) company_words)"

definition compare_email :: "string \<Rightarrow> profile_data \<Rightarrow> rat" where
  "compare_email input_email profile =
     (if input_email = [] then 0
      else case re_match False email_pattern input_email of
        None \<Rightarrow> 0
      | Some groups \<Rightarrow>
          let username = lower (hd groups);
              full_name = normalize_text (or_default (full_name profile) '''') in
          if py_in username (lower (filter (\<lambda>c. c \<noteq> CHR '' '') full_name)) then 8 / 10
          else let name_parts = split (lower full_name) in
            case (if 2 \<le> length name_parts
                  then pattern_scan username (name_patterns (hd name_parts) (last name_parts))
                  else None) of
              Some score \<Rightarrow> score
            | None \<Rightarrow>
                let email_domain = lower (last (split_on CHR ''@'' [] input_email)) in
                if domain_hit email_domain
                     (get_current_experience (or_default (experience profile) []))
                then 6 / 10
                else 2 / 10)"

text \<open>\<open>round(x, 2)\<close>: to the nearest hundredth, a tie going to the even one (on the exact
  rational; a float that only prints as a tie is rounded by its exact binary value).\<close>

definition py_round2 :: "rat \<Rightarrow> rat" where
  "py_round2 x =
     (let y = x * 100; f = \<lfloor>y\<rfloor>; d = y - of_int f in
      of_int (if d < 1 / 2 then f else if 1 / 2 < d then f + 1
              else if even f then f else f + 1) / 100)"

definition calculate_confidence :: "dict \<Rightarrow> profile_data \<Rightarrow> rat" where
  "calculate_confidence input_data profile =
     (let name_score = compare_names (get input_data ''name'' '''')
            (or_default (full_name profile) '''');
          company_score = compare_company (get input_data ''company'' '''')
            (or_default (experience profile) []);
          email_score = compare_email (get input_data ''email'' '''') profile;
          score = 0 + name_score * 40 + company_score * 30 + email_score * 30;
          total_weight = (0 + 40 + 30 + 30 :: rat);
          final_score = (if 0 < total_weight then (score / total_weight) * 100 else 0)
      in py_round2 final_score)"

text \<open>The query and the profile of the repository's exact-match test.\<close>

definition john_input :: dict where
  "john_input = [(''name'', ''John Smith''), (''email'', ''john.smith@example.com''),
     (''company'', ''Example Corp'')]"

definition john_profile :: profile_data where
  "john_profile = \<lparr>full_name = Some ''John Smith'', headline = None,
     experience = Some [[(''title'', ''Software Engineer''), (''company'', ''Example Corp''),
       (''duration'', ''2020 - Present'')]],
     education = None, skills = None\<rparr>"

text \<open>The normalized profile name, the local part of an email as \<open>_compare_email\<close> reads
  it, and the four patterns for a profile, to state the properties of the email score.\<close>

definition profile_name :: "profile_data \<Rightarrow> string" where
  "profile_name profile = normalize_text (or_default (full_name profile) '''')"

definition profile_patterns :: "profile_data \<Rightarrow> string list" where
  "profile_patterns profile =
     (let name_parts = split (lower (profile_name profile)) in
      if 2 \<le> length name_parts then name_patterns (hd name_parts) (last name_parts) else [])"

section \<open>The orchestrator (linkedin\_profile\_hunter.py)\<close>

text \<open>
  The three remote stages and the rate limiter are collaborators: each is an effectful
  call on the state of the world, a stage giving an exception or a value (the rate
  limiter's \<open>wait\<close> only sleeps and notes the time). The settings \<open>MAX_RETRIES\<close>,
  \<open>RETRY_DELAY\<close> and \<open>BACKOFF_FACTOR\<close> come from the environment. Each stage is
  retried with the default \<open>exceptions=(Exception,)\<close>: every exception of a stage is
  retryable.
\<close>

record find_result =
  url :: string
  initial_confidence :: rat

record ('s, 'e) collaborators =
  rate_limiter_wait :: "'s \<Rightarrow> 's"
  find_profile :: "string \<Rightarrow> string \<Rightarrow> string \<Rightarrow> 's \<Rightarrow> ('e + find_result) \<times> 's"
  scrape_profile :: "string \<Rightarrow> 's \<Rightarrow> ('e + profile_data) \<times> 's"
  analyze_profile :: "profile_data \<Rightarrow> 's \<Rightarrow> ('e + string) \<times> 's"

record settings =
  MAX_RETRIES :: int
  RETRY_DELAY :: rat
  BACKOFF_FACTOR :: rat

text \<open>The result dictionary, one field per key, in the order of the source: \<open>Nome\<close>,
  \<open>E-mail\<close>, \<open>Empresa\<close>, \<open>Confiabilidade\<close>, \<open>LinkedIn\<close>, \<open>Cargo Atual\<close>,
  \<open>Experiencia Anterior\<close>, \<open>Formacao\<close>, \<open>Habilidades principais\<close>, \<open>Analise do Perfil\<close>
  (the field names drop the accents of the keys). The analysis is \<open>None\<close> only when the
  analysis stage returned \<open>None\<close>.\<close>

record hunt_result =
  Nome :: string
  E_mail :: string
  Empresa :: string
  Confiabilidade :: string
  LinkedIn :: string
  Cargo_Atual :: string
  Experiencia_Anterior :: "dict list"
  Formacao :: "dict list"
  Habilidades_principais :: "string list"
  Analise_do_Perfil :: "string option"

text \<open>What \<open>hunt_profile\<close> can raise: the exception of a stage, or the error of using the
  \<open>None\<close> that \<open>retry_async\<close> returns when it made no attempt.\<close>

datatype 'e hunt_error = Stage 'e | TypeError | AttributeError

text \<open>\<open>str\<close> of a natural number, and of a float that is a whole number of hundredths (the
  shortest text that reads back as the same float: at least one decimal, no trailing
  zero after it).\<close>

function str_nat :: "nat \<Rightarrow> string" where
  "str_nat n = (if n < 10 then [char_of (48 + n)] else str_nat (n div 10) @ [char_of (48 + n mod 10)])"
  by pat_completeness auto
termination
  by (relation "measure id") auto

declare str_nat.simps [simp del]

definition str_float :: "rat \<Rightarrow> string" where
  "str_float x =
     (let z = nat \<lfloor>x * 100\<rfloor>; cents = z mod 100 in
      str_nat (z div 100) @ ''.'' @
        (if cents mod 10 = 0 then str_nat (cents div 10)
         else str_nat (cents div 10) @ str_nat (cents mod 10)))"

definition not_found_url :: string where
  "not_found_url = ''Perfil n'' @ a_tilde @ ''o encontrado''"

definition not_found_analysis :: string where
  "not_found_analysis = ''N'' @ a_tilde @ ''o foi poss'' @ i_acute
     @ ''vel encontrar um perfil do LinkedIn correspondente aos dados fornecidos.''"

definition hunt_profile :: "settings \<Rightarrow> (nat \<Rightarrow> rat) \<Rightarrow> ('s, 'e) collaborators \<Rightarrow>
    string \<Rightarrow> string \<Rightarrow> string \<Rightarrow> 's \<Rightarrow> ('e hunt_error + hunt_result) \<times> 's" where
  "hunt_profile cfg jitter co name email company w =
     (case retry_async (find_profile co name email company) (MAX_RETRIES cfg) (RETRY_DELAY cfg)
             (\<lambda>e. True) (BACKOFF_FACTOR cfg) jitter (rate_limiter_wait co w) of
        (Raised e, st) \<Rightarrow> (Inl (Stage e), world st)
      | (ReturnedNone, st) \<Rightarrow> (Inl TypeError, world st)
      | (Returned profile_result, st) \<Rightarrow>
          let profile_url = url profile_result in
          if profile_url = [] then
            (Inr \<lparr>Nome = name, E_mail = email, Empresa = company, Confiabilidade = ''0%'',
                  LinkedIn = not_found_url, Cargo_Atual = ''N/A'', Experiencia_Anterior = [],
                  Formacao = [], Habilidades_principais = [],
                  Analise_do_Perfil = Some not_found_analysis\<rparr>, world st)
          else
            (case retry_async (scrape_profile co profile_url) (MAX_RETRIES cfg)
                    (RETRY_DELAY cfg) (\<lambda>e. True) (BACKOFF_FACTOR cfg) jitter
                    (rate_limiter_wait co (world st)) of
               (Raised e, st2) \<Rightarrow> (Inl (Stage e), world st2)
             | (ReturnedNone, st2) \<Rightarrow> (Inl AttributeError, world st2)
             | (Returned profile, st2) \<Rightarrow>
                 let input_data = [(''name'', name), (''email'', email), (''company'', company)];
                     confidence = calculate_confidence input_data profile
                 in (case retry_async (analyze_profile co profile) (MAX_RETRIES cfg)
                           (RETRY_DELAY cfg) (\<lambda>e. True) (BACKOFF_FACTOR cfg) jitter
                           (rate_limiter_wait co (world st2)) of
                       (Raised e, st3) \<Rightarrow> (Inl (Stage e), world st3)
                     | (analysed, st3) \<Rightarrow>
                         (Inr \<lparr>Nome = name, E_mail = email, Empresa = company,
                               Confiabilidade = str_float confidence @ ''%'',
                               LinkedIn = profile_url,
                               Cargo_Atual = or_default (headline profile) ''N/A'',
                               Experiencia_Anterior = or_default (experience profile) [],
                               Formacao = or_default (education profile) [],
                               Habilidades_principais = or_default (skills profile) [],
                               Analise_do_Perfil =
                                 (case analysed of Returned analysis \<Rightarrow> Some analysis
                                  | _ \<Rightarrow> None)\<rparr>, world st3))))"

text \<open>A search that finds nothing, and one that finds the test profile.\<close>

definition finds_nothing :: "(nat, string) collaborators" where
  "finds_nothing = \<lparr>rate_limiter_wait = (\<lambda>w. w),
     find_profile = (\<lambda>name email company w. (Inr \<lparr>url = [], initial_confidence = 0\<rparr>, w + 1)),
     scrape_profile = (\<lambda>u w. (Inl ''not reached'', w + 1)),
     analyze_profile = (\<lambda>p w. (Inl ''not reached'', w + 1))\<rparr>"

definition finds_john :: "(nat, string) collaborators" where
  "finds_john = \<lparr>rate_limiter_wait = (\<lambda>w. w),
     find_profile = (\<lambda>name email company w.
       (Inr \<lparr>url = ''https://www.linkedin.com/in/john-smith'', initial_confidence = 8 / 10\<rparr>,
        w + 1)),
     scrape_profile = (\<lambda>u w. (Inr john_profile, w + 1)),
     analyze_profile = (\<lambda>p w. (Inr ''An engineer.'', w + 1))\<rparr>"

definition default_settings :: settings where
  "default_settings = \<lparr>MAX_RETRIES = 3, RETRY_DELAY = 5, BACKOFF_FACTOR = 2\<rparr>"

section \<open>Properties of the matcher\<close>

lemma lit_match_take:
  "lit_match ic l s \<Longrightarrow> length l \<le> length s \<and> lit_match ic l (take (length l) s)"
  by (induction ic l s rule: lit_match.induct) (auto split: if_splits)

lemma lit_match_exact:
  "lit_match False l m \<Longrightarrow> length m = length l \<Longrightarrow> m = l"
  by (induction "False" l m rule: lit_match.induct) (auto simp: char_eq_def split: if_splits)

lemma take_takeWhile_all: "k \<le> length (takeWhile p s) \<Longrightarrow> list_all p (take k s)"
proof -
  assume k: "k \<le> length (takeWhile p s)"
  have "take k s = take k (takeWhile p s)"
    using k by (metis takeWhile_dropWhile_id take_append diff_is_0_eq' take_0 append_Nil2)
  moreover have "list_all p (takeWhile p s)"
    by (simp add: list_all_iff) (meson set_takeWhileD)
  ultimately show ?thesis
    by (metis list_all_iff in_set_takeD)
qed

lemma rx_run_sound:
  "(g, r) \<in> set (rx_run ic rx s) \<Longrightarrow> \<exists>m. s = m @ r \<and> m \<in> rx_lang ic rx"
proof (induction rx arbitrary: g r s)
  case Eps
  then show ?case by simp
next
  case (Lit l)
  then have lm: "lit_match ic l s" and r: "r = drop (length l) s"
    by (auto split: if_splits)
  from lit_match_take [OF lm] r show ?case
    by (intro exI [of _ "take (length l) s"]) simp
next
  case (Cls p)
  then show ?case by (cases s) (auto split: if_splits)
next
  case (Seq a b)
  from Seq.prems obtain g1 r1 g2 where a: "(g1, r1) \<in> set (rx_run ic a s)"
    and b: "(g2, r) \<in> set (rx_run ic b r1)"
    by auto
  from Seq.IH(1) [OF a] obtain m1 where m1: "s = m1 @ r1" "m1 \<in> rx_lang ic a" by blast
  from Seq.IH(2) [OF b] obtain m2 where m2: "r1 = m2 @ r" "m2 \<in> rx_lang ic b" by blast
  from m1 m2 show ?case by (intro exI [of _ "m1 @ m2"]) auto
next
  case (Alt a b)
  then show ?case by auto blast+
next
  case (Opt a)
  then show ?case by auto blast
next
  case (Star p)
  then have "\<exists>k. k < Suc (length (takeWhile p s)) \<and> r = drop k s"
    by (auto simp del: upt_Suc)
  then obtain k where k: "k \<le> length (takeWhile p s)" and r: "r = drop k s"
    using less_Suc_eq_le by blast
  from take_takeWhile_all [OF k] r show ?case
    by (intro exI [of _ "take k s"]) simp
next
  case (Plus p)
  then have "\<exists>k. 1 \<le> k \<and> k < Suc (length (takeWhile p s)) \<and> r = drop k s"
    by (auto simp del: upt_Suc)
  then obtain k where k: "k \<le> length (takeWhile p s)" "1 \<le> k" and r: "r = drop k s"
    using less_Suc_eq_le by blast
  have "k \<le> length s" using k(1) length_takeWhile_le [of p s] by simp 
  with take_takeWhile_all [OF k(1)] k(2) r show ?case
    by (intro exI [of _ "take k s"]) auto
next
  case (Grp a)
  then show ?case by auto
qed

lemma match_here_sound:
  assumes "match_here ic rx s = Some n"
  shows "n \<le> length s \<and> take n s \<in> rx_lang ic rx"
proof -
  from assms obtain g rest where run: "(g, rest) \<in> set (rx_run ic rx s)"
    and n: "n = length s - length rest"
    by (auto simp: match_here_def split: list.splits)
  from rx_run_sound [OF run] obtain m where m: "s = m @ rest" "m \<in> rx_lang ic rx" by blast
  with n show ?thesis by simp
qed

section \<open>Properties of the similarity ratio\<close>



section \<open>Properties of the retry executor\<close>

lemma retry_loop_calls:
  "calls (snd (retry_loop func retryable jitter max_retries backoff_factor attempts delay st))
     \<le> calls st + length attempts"
proof (induction attempts arbitrary: delay st)
  case Nil
  then show ?case by simp
next
  case (Cons attempt rest)
  obtain out w where f: "func (world st) = (out, w)" by (cases "func (world st)")
  show ?case
  proof (cases out)
    case (Inl e)
    define st' where "st' = st\<lparr>world := w, calls := calls st + 1,
      sleeps := sleeps st @ [delay * jitter attempt]\<rparr>"
    have "calls (snd (retry_loop func retryable jitter max_retries backoff_factor rest
        (delay * backoff_factor) st')) \<le> calls st' + length rest"
      by (rule Cons.IH)
    with f Inl show ?thesis by (simp add: st'_def)
  next
    case (Inr v)
    with f show ?thesis by simp
  qed
qed

lemma fails_first_Suc:
  assumes "fails_first func retryable w (Suc k)"
  shows "\<exists>e. fst (func w) = Inl e \<and> retryable e"
    and "fails_first func retryable (snd (func w)) k"
  using assms by (auto split: prod.splits sum.splits)

lemma fails_first_last:
  "fails_first func retryable w (Suc k) \<Longrightarrow>
   fails_first func retryable w k
   \<and> (case nth_outcome func w k of Inl e \<Rightarrow> retryable e | Inr v \<Rightarrow> False)"
proof (induction k arbitrary: w)
  case 0
  then show ?case by (auto simp: nth_outcome_def split: prod.splits sum.splits)
next
  case (Suc k)
  from fails_first_Suc [OF Suc.prems] obtain e where
    e: "fst (func w) = Inl e" "retryable e"
    and rest: "fails_first func retryable (snd (func w)) (Suc k)"
    by blast
  from Suc.IH [OF rest] e show ?case
    by (cases "func w") (simp add: nth_outcome_def)
qed

text \<open>The loop from attempt \<open>a\<close> on, when the action fails \<open>k\<close> more times and then ends
  the loop at attempt \<open>a + k\<close>.\<close>

lemma retry_loop_run:
  assumes "fails_first func retryable (world st) k"
    and "int (a + k) \<le> max_retries"
    and "a + k < b"
  shows "\<exists>delay' st'.
     retry_loop func retryable jitter max_retries backoff_factor [a ..< b] delay st
       = retry_loop func retryable jitter max_retries backoff_factor [a + k ..< b] delay' st'
     \<and> world st' = after func (world st) k \<and> calls st' = calls st + k
     \<and> length (sleeps st') = length (sleeps st) + k"
  using assms
proof (induction k arbitrary: a delay st)
  case 0
  then show ?case by auto
next
  case (Suc k)
  from fails_first_Suc [OF Suc.prems(1)] obtain e where
    e: "fst (func (world st)) = Inl e" "retryable e"
    and rest: "fails_first func retryable (snd (func (world st))) k"
    by blast
  define st1 where "st1 = st\<lparr>world := snd (func (world st)), calls := calls st + 1,
      sleeps := sleeps st @ [delay * jitter a]\<rparr>"
  from Suc.prems have ab: "a < b" and lt: "int a < max_retries" by simp_all
  have step: "retry_loop func retryable jitter max_retries backoff_factor [a ..< b] delay st
      = retry_loop func retryable jitter max_retries backoff_factor [Suc a ..< b]
          (delay * backoff_factor) st1"
    using e lt ab by (cases "func (world st)") (simp add: upt_conv_Cons st1_def)
  have "fails_first func retryable (world st1) k" using rest by (simp add: st1_def)
  moreover have "int (Suc a + k) \<le> max_retries" "Suc a + k < b" using Suc.prems by simp_all
  ultimately obtain delay' st' where
    "retry_loop func retryable jitter max_retries backoff_factor [Suc a ..< b]
        (delay * backoff_factor) st1
       = retry_loop func retryable jitter max_retries backoff_factor [Suc a + k ..< b] delay' st'"
    "world st' = after func (world st1) k" "calls st' = calls st1 + k"
    "length (sleeps st') = length (sleeps st1) + k"
    using Suc.IH [of st1 "Suc a" "delay * backoff_factor"] by blast
  with step show ?case
    by (intro exI [of _ delay'] exI [of _ st']) (simp add: st1_def)
qed

lemma retry_async_run:
  assumes "fails_first func retryable w k" and "int k \<le> max_retries"
  shows "\<exists>delay' st'.
     retry_async func max_retries retry_delay retryable backoff_factor jitter w
       = retry_loop func retryable jitter max_retries backoff_factor
           (k # [Suc k ..< nat (max_retries + 1)]) delay' st'
     \<and> world st' = after func w k \<and> calls st' = k \<and> length (sleeps st') = k"
proof -
  from assms(2) have lt: "0 + k < nat (max_retries + 1)" by simp
  from retry_loop_run [of func retryable "\<lparr>world = w, calls = 0, sleeps = []\<rparr>" k 0
      max_retries "nat (max_retries + 1)" jitter backoff_factor retry_delay]
    assms lt
  show ?thesis
    by (simp add: retry_async_def upt_conv_Cons [of k])
qed

lemma retry_async_calls:
  "calls (snd (retry_async func max_retries retry_delay retryable backoff_factor jitter w))
     \<le> nat (max_retries + 1)"
  using retry_loop_calls [of func retryable jitter max_retries backoff_factor
      "[0 ..< nat (max_retries + 1)]" retry_delay "\<lparr>world = w, calls = 0, sleeps = []\<rparr>"]
  by (simp add: retry_async_def)

lemma retry_async_success:
  assumes k: "int k \<le> max_retries" "fails_first func retryable w k"
    and v: "nth_outcome func w k = Inr v"
  shows "fst (retry_async func max_retries retry_delay retryable backoff_factor jitter w) = Returned v \<and> calls (snd
      (retry_async func max_retries retry_delay retryable backoff_factor jitter w)) = k + 1"
proof -
  define result where
    "result = retry_async func max_retries retry_delay retryable backoff_factor jitter w"
  from retry_async_run [OF k(2) k(1)] obtain delay' st' where
    r: "result = retry_loop func retryable jitter max_retries backoff_factor
           (k # [Suc k ..< nat (max_retries + 1)]) delay' st'"
    and st': "world st' = after func w k" "calls st' = k"
    unfolding result_def by blast
  from v st' have "fst result = Returned v \<and> calls (snd result) = k + 1"
    by (cases "func (world st')") (simp add: r nth_outcome_def)
  then show ?thesis by (simp add: result_def)
qed

lemma retry_async_exhausted:
  assumes m: "0 \<le> max_retries" "fails_first func retryable w (nat max_retries + 1)"
    and e: "nth_outcome func w (nat max_retries) = Inl e"
  shows "fst (retry_async func max_retries retry_delay retryable backoff_factor jitter w) = Raised e \<and> calls (snd
      (retry_async func max_retries retry_delay retryable backoff_factor jitter w)) = nat max_retries + 1"
proof -
  define result where
    "result = retry_async func max_retries retry_delay retryable backoff_factor jitter w"
  from m(2) have ff: "fails_first func retryable w (nat max_retries)"
    and re: "case nth_outcome func w (nat max_retries) of Inl e \<Rightarrow> retryable e | Inr v \<Rightarrow> False"
    using fails_first_last [of func retryable w "nat max_retries"] by simp_all
  from m(1) have "int (nat max_retries) \<le> max_retries" by simp
  from retry_async_run [OF ff this] obtain delay' st' where
    r: "result = retry_loop func retryable jitter max_retries backoff_factor
           (nat max_retries # [Suc (nat max_retries) ..< nat (max_retries + 1)]) delay' st'"
    and st': "world st' = after func w (nat max_retries)" "calls st' = nat max_retries"
    unfolding result_def by blast
  from e re st' m(1)
  have "fst result = Raised e \<and> calls (snd result) = nat max_retries + 1"
    by (cases "func (world st')") (simp add: r nth_outcome_def)
  then show ?thesis by (simp add: result_def)
qed

lemma retry_async_not_retryable:
  assumes k: "int k \<le> max_retries" "fails_first func retryable w k"
    and e: "nth_outcome func w k = Inl e" "\<not> retryable e"
  shows "fst (retry_async func max_retries retry_delay retryable backoff_factor jitter w) = Raised e \<and> calls (snd
      (retry_async func max_retries retry_delay retryable backoff_factor jitter w)) = k + 1
      \<and> length (sleeps (snd
      (retry_async func max_retries retry_delay retryable backoff_factor jitter w))) = k"
proof -
  define result where
    "result = retry_async func max_retries retry_delay retryable backoff_factor jitter w"
  from retry_async_run [OF k(2) k(1)] obtain delay' st' where
    r: "result = retry_loop func retryable jitter max_retries backoff_factor
           (k # [Suc k ..< nat (max_retries + 1)]) delay' st'"
    and st': "world st' = after func w k" "calls st' = k" "length (sleeps st') = k"
    unfolding result_def by blast
  from e st' have "fst result = Raised e \<and> calls (snd result) = k + 1
      \<and> length (sleeps (snd result)) = k"
    by (cases "func (world st')") (simp add: r nth_outcome_def)
  then show ?thesis by (simp add: result_def)
qed

text \<open>
  Claim C7. \<open>retry_async\<close> invokes the action at most \<open>max_retries + 1\<close> times. When the
  action fails \<open>k\<close> times with retryable exceptions and then succeeds, \<open>k\<close> being at most
  \<open>max_retries\<close>, the success value is returned after exactly \<open>k + 1\<close> invocations. When
  all \<open>max_retries + 1\<close> attempts fail with retryable exceptions, the exception of the last
  attempt is raised to the caller. An exception that is not retryable is raised at once,
  at the invocation that threw it, with no sleep and no further attempt.
\<close>

theorem retry_async_attempts:
  "calls (snd (retry_async func max_retries retry_delay retryable backoff_factor jitter w))
     \<le> nat (max_retries + 1)
   \<and> (int k \<le> max_retries \<and> fails_first func retryable w k \<and> nth_outcome func w k = Inr v
        \<longrightarrow> fst (retry_async func max_retries retry_delay retryable backoff_factor jitter w)
              = Returned v
          \<and> calls (snd (retry_async func max_retries retry_delay retryable backoff_factor
              jitter w)) = k + 1)
   \<and> (0 \<le> max_retries \<and> fails_first func retryable w (nat max_retries + 1)
        \<and> nth_outcome func w (nat max_retries) = Inl e
        \<longrightarrow> fst (retry_async func max_retries retry_delay retryable backoff_factor jitter w)
              = Raised e
          \<and> calls (snd (retry_async func max_retries retry_delay retryable backoff_factor
              jitter w)) = nat max_retries + 1)
   \<and> (int k \<le> max_retries \<and> fails_first func retryable w k \<and> nth_outcome func w k = Inl e'
        \<and> \<not> retryable e'
        \<longrightarrow> fst (retry_async func max_retries retry_delay retryable backoff_factor jitter w)
              = Raised e'
          \<and> calls (snd (retry_async func max_retries retry_delay retryable backoff_factor
              jitter w)) = k + 1
          \<and> length (sleeps (snd (retry_async func max_retries retry_delay retryable
              backoff_factor jitter w))) = k)"
  using retry_async_calls [of func max_retries retry_delay retryable backoff_factor jitter w]
    retry_async_success [of k max_retries func retryable w v retry_delay backoff_factor jitter]
    retry_async_exhausted [of max_retries func retryable w e retry_delay backoff_factor jitter]
    retry_async_not_retryable [of k max_retries func retryable w e' retry_delay backoff_factor
      jitter]
  by blast

lemma flaky_eval:
  "retry_async flaky 3 2 (\<lambda>e. True) 2 (\<lambda>i. 1) 0
     = (Returned 42, \<lparr>world = 3, calls = 3, sleeps = [2, 4]\<rparr>)"
  by (simp add: retry_async_def flaky_def upt_conv_Cons)

theorem retry_async_attempts_witness:
  "int 2 \<le> 3 \<and> fails_first flaky (\<lambda>e. True) 0 2 \<and> nth_outcome flaky 0 2 = Inr 42
   \<and> fst (retry_async flaky 3 2 (\<lambda>e. True) 2 (\<lambda>i. 1) 0) = Returned 42
   \<and> calls (snd (retry_async flaky 3 2 (\<lambda>e. True) 2 (\<lambda>i. 1) 0)) = 3"
proof -
  have ff: "fails_first flaky (\<lambda>e. True) 0 2"
    by (simp add: flaky_def numeral_2_eq_2)
  have ok: "nth_outcome flaky 0 2 = Inr 42"
    by (simp add: nth_outcome_def flaky_def numeral_2_eq_2)
  from ff ok retry_async_attempts [of flaky 3 2 "\<lambda>e. True" 2 "\<lambda>i. 1" 0 2 42]
  show ?thesis by simp
qed

section \<open>Properties of the block detector\<close>

lemma update_keys_present:
  "k \<in> set (map fst al) \<Longrightarrow> map fst (AList.update k v al) = map fst al"
  by (simp add: update_keys)

lemma pattern_loop_keys:
  "set (map fst tab) \<subseteq> set (map fst blocks) \<Longrightarrow>
   map fst (pattern_loop tab text blocks) = map fst blocks"
proof (induction tab arbitrary: blocks)
  case Nil
  then show ?case by simp
next
  case (Cons entry tab)
  obtain k ps where e: "entry = (k, ps)" by (cases entry)
  from Cons.prems e have k: "k \<in> set (map fst blocks)" by simp
  from Cons.prems have rest: "set (map fst tab) \<subseteq> set (map fst blocks)" by simp
  show ?case
  proof (cases "any_pattern ps text")
    case True
    have "map fst (AList.update k True blocks) = map fst blocks"
      using k by (rule update_keys_present)
    with Cons.IH [of "AList.update k True blocks"] rest True e show ?thesis by simp
  next
    case False
    with Cons.IH [of blocks] rest e show ?thesis by simp
  qed
qed

lemma selector_loop_keys:
  "set (map fst tab) \<subseteq> set (map fst blocks) \<Longrightarrow>
   map fst (selector_loop bs_select soup tab blocks) = map fst blocks"
proof (induction tab arbitrary: blocks)
  case Nil
  then show ?case by simp
next
  case (Cons entry tab)
  obtain k sels where e: "entry = (k, sels)" by (cases entry)
  from Cons.prems e have k: "k \<in> set (map fst blocks)" by simp
  from Cons.prems have rest: "set (map fst tab) \<subseteq> set (map fst blocks)" by simp
  have upd: "map fst (AList.update k True blocks) = map fst blocks"
    using k by (rule update_keys_present)
  show ?case
  proof (cases "any_selector bs_select soup sels")
    case None
    with e show ?thesis by simp
  next
    case (Some found)
    with Cons.IH [of "AList.update k True blocks"] Cons.IH [of blocks] rest upd e
    show ?thesis by (cases found) simp_all
  qed
qed

lemma keys_PATTERNS: "map fst PATTERNS = block_kinds"
  by (simp add: PATTERNS_def block_kinds_def)

lemma keys_HTML_INDICATORS: "set (map fst HTML_INDICATORS) \<subseteq> set block_kinds"
  by (simp add: HTML_INDICATORS_def block_kinds_def)

lemma keys_URL_INDICATORS: "set (map fst URL_INDICATORS) \<subseteq> set block_kinds"
  by (simp add: URL_INDICATORS_def block_kinds_def)

lemma check_text_patterns_keys:
  "map fst blocks = block_kinds \<Longrightarrow> map fst (check_text_patterns html blocks) = block_kinds"
  unfolding check_text_patterns_def using pattern_loop_keys [of PATTERNS blocks]
  by (simp add: keys_PATTERNS)

lemma check_html_elements_keys:
  assumes "map fst blocks = block_kinds"
  shows "map fst (check_html_elements bs_parse bs_select html blocks) = block_kinds"
proof (cases "bs_parse html")
  case None
  with assms show ?thesis by (simp add: check_html_elements_def)
next
  case (Some soup)
  have "set (map fst HTML_INDICATORS) \<subseteq> set (map fst blocks)"
    using keys_HTML_INDICATORS assms by simp
  then have "map fst (selector_loop bs_select soup HTML_INDICATORS blocks) = map fst blocks"
    by (rule selector_loop_keys)
  with Some assms show ?thesis by (simp add: check_html_elements_def)
qed

lemma check_url_patterns_keys:
  "map fst blocks = block_kinds \<Longrightarrow> map fst (check_url_patterns page_url blocks) = block_kinds"
  unfolding check_url_patterns_def
  using pattern_loop_keys [of URL_INDICATORS blocks] keys_URL_INDICATORS by simp

lemma getitem_present:
  "k \<in> set (map fst blocks) \<Longrightarrow> \<exists>v. getitem blocks k = Inr v"
proof -
  assume "k \<in> set (map fst blocks)"
  then obtain v where "map_of blocks k = Some v"
    by (metis domD dom_map_of_conv_image_fst set_map)
  then show ?thesis by (simp add: getitem_def)
qed

lemma check_redirects_keys:
  assumes "map fst blocks = block_kinds"
  shows "\<exists>blocks'. check_redirects page_url blocks = Inr blocks' \<and> map fst blocks' = block_kinds"
proof -
  have l: "''login_required'' \<in> set (map fst blocks)"
    and s: "''security_check'' \<in> set (map fst blocks)"
    using assms by (simp_all add: block_kinds_def)
  obtain lv where lv: "getitem blocks ''login_required'' = Inr lv"
    using getitem_present [OF l] by blast
  define blocks1 where "blocks1 =
    (if py_in ''linkedin.com/login'' page_url \<and> \<not> lv
     then AList.update ''login_required'' True blocks else blocks)"
  have k1: "map fst blocks1 = block_kinds"
    using assms update_keys_present [OF l] by (simp add: blocks1_def)
  then have "''security_check'' \<in> set (map fst blocks1)"
    by (simp add: block_kinds_def)
  then obtain sv where sv: "getitem blocks1 ''security_check'' = Inr sv"
    using getitem_present by blast
  have k2: "map fst (AList.update ''security_check'' True blocks1) = block_kinds"
    using k1 by (simp add: update_keys block_kinds_def)
  show ?thesis
  proof (cases "py_in ''linkedin.com/login'' page_url")
    case True
    with lv sv k1 k2 show ?thesis
      unfolding check_redirects_def blocks1_def [symmetric]
      by (cases "py_in ''linkedin.com/checkpoint'' page_url") (simp_all add: blocks1_def Let_def)
  next
    case False
    with lv sv k1 k2 show ?thesis
      unfolding check_redirects_def
      by (cases "py_in ''linkedin.com/checkpoint'' page_url") (simp_all add: blocks1_def Let_def)
  qed
qed

lemma flagged_nonempty: "list_ex snd blocks = (map fst (filter snd blocks) \<noteq> [])"
  by (induction blocks) auto

text \<open>What every run of the detector gives.\<close>

lemma detect_blocks_result:
  "\<exists>r. detect_blocks bs_parse bs_select html page_url = Inr r
     \<and> is_blocked r = (block_types r \<noteq> [])
     \<and> set (block_types r) \<subseteq> {''rate_limit'', ''security_check'', ''login_required'',
          ''account_restricted'', ''not_found'', ''private_profile'', ''ip_block''}"
proof -
  define blocks0 where "blocks0 = map (\<lambda>block_type. (block_type, False)) (map fst PATTERNS)"
  define blocks3 where "blocks3 = check_url_patterns page_url
    (check_html_elements bs_parse bs_select html (check_text_patterns html blocks0))"
  have "map fst blocks0 = block_kinds"
    by (simp add: blocks0_def keys_PATTERNS comp_def)
  then have "map fst blocks3 = block_kinds"
    unfolding blocks3_def
    by (intro check_url_patterns_keys check_html_elements_keys check_text_patterns_keys)
  then obtain blocks where red: "check_redirects page_url blocks3 = Inr blocks"
    and keys: "map fst blocks = block_kinds"
    using check_redirects_keys by blast
  define r where "r = \<lparr>is_blocked = list_ex snd blocks,
    block_types = map fst (filter snd blocks),
    details = Some (get_block_details bs_parse bs_select html blocks)\<rparr>"
  have res: "detect_blocks bs_parse bs_select html page_url = Inr r"
    using red by (simp add: detect_blocks_def Let_def blocks3_def blocks0_def r_def)
  have "set (map fst (filter snd blocks)) \<subseteq> set (map fst blocks)" by auto
  then have "set (block_types r) \<subseteq> set block_kinds"
    using keys by (simp add: r_def)
  moreover have "is_blocked r = (block_types r \<noteq> [])"
    using flagged_nonempty [of blocks] by (simp add: r_def)
  ultimately show ?thesis using res by (auto simp: block_kinds_def)
qed

text \<open>
  Claim C10. For every HTML text and URL (and whatever the HTML parser does, raising
  included), \<open>detect_blocks\<close> returns a result, never an error; its \<open>is_blocked\<close> flag is
  true exactly when its \<open>block_types\<close> list is not empty; and every element of
  \<open>block_types\<close> is one of the seven kinds \<open>rate_limit\<close>, \<open>security_check\<close>,
  \<open>login_required\<close>, \<open>account_restricted\<close>, \<open>not_found\<close>, \<open>private_profile\<close>, \<open>ip_block\<close>.
\<close>

theorem detect_blocks_consistent:
  "\<exists>r. detect_blocks bs_parse bs_select html page_url = Inr r
     \<and> is_blocked r = (block_types r \<noteq> [])
     \<and> set (block_types r) \<subseteq> {''rate_limit'', ''security_check'', ''login_required'',
          ''account_restricted'', ''not_found'', ''private_profile'', ''ip_block''}"
  by (rule detect_blocks_result)

theorem detect_blocks_consistent_witness:
  "detect_blocks (\<lambda>h. Some h) (\<lambda>soup sel. Some [])
     ''please log in to continue'' ''https://www.linkedin.com/in/jane''
   = Inr \<lparr>is_blocked = True, block_types = [''login_required''],
          details = Some \<lparr>error_messages = None, wait_time_info = None\<rparr>\<rparr>
   \<and> (\<exists>r. detect_blocks (\<lambda>h. Some h) (\<lambda>soup sel. Some [])
         ''please log in to continue'' ''https://www.linkedin.com/in/jane'' = Inr r
      \<and> is_blocked r = (block_types r \<noteq> [])
      \<and> set (block_types r) \<subseteq> {''rate_limit'', ''security_check'', ''login_required'',
          ''account_restricted'', ''not_found'', ''private_profile'', ''ip_block''})"
proof -
  have "detect_blocks (\<lambda>h. Some h) (\<lambda>soup sel. Some [])
     ''please log in to continue'' ''https://www.linkedin.com/in/jane''
   = Inr \<lparr>is_blocked = True, block_types = [''login_required''],
          details = Some \<lparr>error_messages = None, wait_time_info = None\<rparr>\<rparr>"
    by code_simp
  then show ?thesis
    using detect_blocks_consistent [of "\<lambda>h. Some h" "\<lambda>soup sel. Some []"
     "''please log in to continue''" "''https://www.linkedin.com/in/jane''"]
    by blast
qed









text \<open>
  The units the detector can hand over and the action does not convert. The Portuguese
  pattern captures \<open>minutos\<close>, \<open>horas\<close> or \<open>dias\<close>, and both patterns match without regard
  to case and capture the text as the page wrote it; none of these contains \<open>minute\<close>,
  \<open>hour\<close> or \<open>day\<close>, so the wait stays at the default hour.
\<close>

lemma localized_unit_parsed:
  "first_wait (wait_time_patterns ! 1) [''Tente novamente em 5 minutos'']
     = Some \<lparr>wt_value = 5, wt_unit = ''minutos''\<rparr>"
  by code_simp

lemma localized_unit_not_converted:
  "wait_time (get_recommended_action \<lparr>is_blocked = True, block_types = [''rate_limit''],
      details = Some \<lparr>error_messages = Some [''Tente novamente em 5 minutos''],
        wait_time_info = Some \<lparr>wt_value = 5, wt_unit = ''minutos''\<rparr>\<rparr>\<rparr>) = 3600"
  by (simp add: get_recommended_action_def)

lemma capitalised_unit_not_converted:
  "first_wait (wait_time_patterns ! 0) [''Try again in 2 Hours''] 
     = Some \<lparr>wt_value = 2, wt_unit = ''Hours''\<rparr>
   \<and> wait_time (get_recommended_action \<lparr>is_blocked = True, block_types = [''rate_limit''],
      details = Some \<lparr>error_messages = Some [''Try again in 2 Hours''],
        wait_time_info = Some \<lparr>wt_value = 2, wt_unit = ''Hours''\<rparr>\<rparr>\<rparr>) = 3600"
  by code_simp

section \<open>Properties of the URL extraction\<close>

lemma lang_lit_seq:
  "m \<in> rx_lang False (Seq (Lit l) b) \<Longrightarrow> \<exists>m2. m = l @ m2 \<and> m2 \<in> rx_lang False b"
  by (auto dest: lit_match_exact)

lemma lang_opt_lit_seq:
  "m \<in> rx_lang False (Seq (Opt (Lit l)) b) \<Longrightarrow>
   \<exists>m1 m2. m = m1 @ m2 \<and> (m1 = [] \<or> m1 = l) \<and> m2 \<in> rx_lang False b"
  by (auto dest: lit_match_exact)

lemma lang_plus_seq:
  "m \<in> rx_lang ic (Seq (Plus p) b) \<Longrightarrow> \<exists>c t. m = c # t \<and> p c"
proof -
  assume "m \<in> rx_lang ic (Seq (Plus p) b)"
  then obtain m1 m2 where m: "m = m1 @ m2" "m1 \<noteq> []" "list_all p m1" by auto
  then obtain c m1' where "m1 = c # m1'" "p c" by (cases m1) auto
  with m show ?thesis by simp
qed

lemma profile_pattern_lang:
  assumes "m \<in> rx_lang False profile_pattern"
  shows "\<exists>p \<in> set profile_prefixes. \<exists>c t. m = p @ c # t \<and> word_or_dash c"
proof -
  define r5 where "r5 = Seq (Plus word_or_dash) (Seq (Opt (Lit ''/'')) (Seq (Star not_quote_or_space) Eps))"
  define r4 where "r4 = Seq (Lit ''linkedin.com/in/'') r5"
  define r3 where "r3 = Seq (Opt (Lit ''www.'')) r4"
  define r2 where "r2 = Seq (Lit ''://'') r3"
  define r1 where "r1 = Seq (Opt (Lit ''s'')) r2"
  have "profile_pattern = Seq (Lit ''http'') r1"
    by (simp add: profile_pattern_def seqs_def r1_def r2_def r3_def r4_def r5_def)
  with assms obtain m1 where m1: "m = ''http'' @ m1" "m1 \<in> rx_lang False r1"
    using lang_lit_seq by metis
  from m1(2) obtain s1 m2 where m2: "m1 = s1 @ m2" "s1 = [] \<or> s1 = ''s''" "m2 \<in> rx_lang False r2"
    unfolding r1_def using lang_opt_lit_seq by metis
  from m2(3) obtain m3 where m3: "m2 = ''://'' @ m3" "m3 \<in> rx_lang False r3"
    unfolding r2_def using lang_lit_seq by metis
  from m3(2) obtain w1 m4 where m4: "m3 = w1 @ m4" "w1 = [] \<or> w1 = ''www.''" "m4 \<in> rx_lang False r4"
    unfolding r3_def using lang_opt_lit_seq by metis
  from m4(3) obtain m5 where m5: "m4 = ''linkedin.com/in/'' @ m5" "m5 \<in> rx_lang False r5"
    unfolding r4_def using lang_lit_seq by metis
  from m5(2) obtain c t where ct: "m5 = c # t" "word_or_dash c"
    unfolding r5_def using lang_plus_seq by metis
  from m2(2) m4(2) show ?thesis
    by (auto simp: m1(1) m2(1) m3(1) m4(1) m5(1) ct profile_prefixes_def)
qed

lemma findall_elements:
  "u \<in> set (findall ic r s) \<Longrightarrow> \<exists>s' n. match_here ic r s' = Some n \<and> u = take n s'"
proof (induction ic r s rule: findall.induct)
  case (1 ic r s)
  note unfold = findall.simps [of ic r s]
  show ?case
  proof (cases "match_here ic r s")
    case None
    with "1.prems" unfold obtain c cs where s: "s = c # cs" and u: "u \<in> set (findall ic r cs)"
      by (cases s) auto
    from "1.IH"(1) [OF None s u] show ?thesis .
  next
    case (Some n)
    show ?thesis
    proof (cases "u = take n s")
      case True
      with Some show ?thesis by blast
    next
      case False
      show ?thesis
      proof (cases "n = 0")
        case True
        with Some False "1.prems" unfold obtain c cs where s: "s = c # cs"
          and u: "u \<in> set (findall ic r cs)"
          by (cases s) auto
        from "1.IH"(2) [OF Some True s u] show ?thesis .
      next
        case n0: False
        with Some False "1.prems" unfold have "u \<in> set (findall ic r (drop n s))"
          by auto
        with "1.IH"(3) [OF Some n0] show ?thesis by blast
      qed
    qed
  qed
qed

lemma fromkeys_fold:
  "foldl (\<lambda>d k. if k \<in> set d then d else d @ [k]) d keys
     = d @ first_seen (filter (\<lambda>k. k \<notin> set d) keys)"
proof (induction keys arbitrary: d)
  case Nil
  then show ?case by simp
next
  case (Cons k keys)
  show ?case
  proof (cases "k \<in> set d")
    case True
    with Cons.IH [of d] show ?thesis by simp
  next
    case False
    have "filter (\<lambda>y. y \<noteq> k) (filter (\<lambda>k. k \<notin> set d) keys)
        = filter (\<lambda>x. x \<notin> set (d @ [k])) keys"
      by (induction keys) auto
    with False Cons.IH [of "d @ [k]"] show ?thesis by simp
  qed
qed

lemma fromkeys_first_seen: "fromkeys keys = first_seen keys"
  by (simp add: fromkeys_def fromkeys_fold)

lemma first_seen_set: "set (first_seen xs) = set xs"
proof (induction xs rule: first_seen.induct)
  case 1
  then show ?case by simp
next
  case (2 x xs)
  then show ?case by auto
qed

lemma first_seen_distinct: "distinct (first_seen xs)"
proof (induction xs rule: first_seen.induct)
  case 1
  then show ?case by simp
next
  case (2 x xs)
  then show ?case by (simp add: first_seen_set)
qed

lemma extract_test_html: "extract_linkedin_profile_urls test_html =
   [''https://www.linkedin.com/in/profile1/'', ''https://linkedin.com/in/profile2/'', ''https://www.linkedin.com/in/profile3'']"
  by code_simp

text \<open>
  Claim C9. For every HTML text, \<open>_extract_linkedin_profile_urls\<close> returns the texts its one
  pattern matches (\<open>findall\<close>), with every repeat of an earlier match dropped and the first
  occurrences kept in their order: no URL is returned twice and none is lost. Every URL
  returned is a profile link: it starts with \<open>http://\<close> or \<open>https://\<close>, an optional
  \<open>www.\<close>, \<open>linkedin.com/in/\<close> and at least one handle character, so a \<open>/company/\<close> link
  is never returned. On the HTML of the repository's test (three profile links and one
  company link) the result is exactly the three profile URLs, in order.
\<close>

theorem extract_profile_urls:
  "extract_linkedin_profile_urls html = first_seen (findall False profile_pattern html)
   \<and> distinct (extract_linkedin_profile_urls html)
   \<and> set (extract_linkedin_profile_urls html) = set (findall False profile_pattern html)
   \<and> (\<forall>u \<in> set (extract_linkedin_profile_urls html).
         \<exists>p \<in> set profile_prefixes. \<exists>c t. u = p @ c # t \<and> word_or_dash c)
   \<and> extract_linkedin_profile_urls test_html =
        [''https://www.linkedin.com/in/profile1/'', ''https://linkedin.com/in/profile2/'',
         ''https://www.linkedin.com/in/profile3'']"
proof -
  have eq: "extract_linkedin_profile_urls html = first_seen (findall False profile_pattern html)"
    by (simp add: extract_linkedin_profile_urls_def fromkeys_first_seen)
  have form: "\<exists>p \<in> set profile_prefixes. \<exists>c t. u = p @ c # t \<and> word_or_dash c"
    if "u \<in> set (extract_linkedin_profile_urls html)" for u
  proof -
    from that have "u \<in> set (findall False profile_pattern html)"
      by (simp add: eq first_seen_set)
    then obtain s' n where "match_here False profile_pattern s' = Some n" "u = take n s'"
      using findall_elements by blast
    then have "u \<in> rx_lang False profile_pattern"
      using match_here_sound by blast
    then show ?thesis by (rule profile_pattern_lang)
  qed
  from eq form extract_test_html show ?thesis
    by (simp add: first_seen_set first_seen_distinct)
qed

theorem extract_profile_urls_witness:
  "extract_linkedin_profile_urls test_html =
     [''https://www.linkedin.com/in/profile1/'', ''https://linkedin.com/in/profile2/'',
      ''https://www.linkedin.com/in/profile3'']
   \<and> (\<exists>p \<in> set profile_prefixes. \<exists>c t.
         ''https://linkedin.com/in/profile2/'' = p @ c # t \<and> word_or_dash c)"
proof -
  note t = extract_profile_urls [of test_html]
  from t have e: "extract_linkedin_profile_urls test_html =
     [''https://www.linkedin.com/in/profile1/'', ''https://linkedin.com/in/profile2/'',
      ''https://www.linkedin.com/in/profile3'']"
    by blast
  from t have "\<forall>u \<in> set (extract_linkedin_profile_urls test_html).
     \<exists>p \<in> set profile_prefixes. \<exists>c t. u = p @ c # t \<and> word_or_dash c"
    by blast
  with e show ?thesis by simp
qed

section \<open>Properties of the confidence score\<close>

text \<open>
  Claim C6, as amended. For every pair of non-empty input name and profile name that are
  identical after normalization (diacritics stripped, lower-cased, trimmed), the name
  score is 1.
\<close>

theorem compare_names_identical:
  assumes "input_name \<noteq> []" and "profile_name0 \<noteq> []"
    and "normalize_text input_name = normalize_text profile_name0"
  shows "compare_names input_name profile_name0 = 1"
  using assms by (simp add: compare_names_def)

text \<open>
  Claim C6 as stated fails for two empty names: they are identical after normalization,
  and \<open>_compare_names\<close> returns 0 for an empty name before it normalizes anything.
\<close>

theorem compare_names_empty:
  "normalize_text [] = normalize_text [] \<and> compare_names [] [] = 0 \<and> compare_names [] [] \<noteq> 1"
  by (simp add: compare_names_def)

lemma email_local_part:
  assumes "u \<noteq> []" and "CHR ''@'' \<notin> set u"
  shows "re_match False email_pattern (u @ CHR ''@'' # rest) = Some [u]"
proof -
  define s where "s = u @ CHR ''@'' # rest"
  define p where "p = (\<lambda>c. c \<noteq> CHR ''@'')"
  have "\<forall>c \<in> set u. p c" using assms(2) by (auto simp: p_def)
  then have "takeWhile p (u @ CHR ''@'' # rest) = u @ takeWhile p (CHR ''@'' # rest)"
    by (simp add: takeWhile_append2)
  then have tw: "takeWhile p s = u"
    by (simp add: s_def p_def)
  have n: "1 \<le> length u" using assms(1) by (cases u) simp_all
  have dr: "drop (length u) s = CHR ''@'' # rest" by (simp add: s_def)
  have tk: "take (length s - Suc (length rest)) s = u" by (simp add: s_def)
  have plus: "rx_run False (Plus p) s
      = ([], CHR ''@'' # rest) # map (\<lambda>k. ([], drop k s)) (rev [1 ..< length u])"
    using n by (simp add: tw dr)
  have grp: "rx_run False (Grp (Plus p)) s
      = ([u], CHR ''@'' # rest)
        # map (\<lambda>(g, r). (take (length s - length r) s # g, r))
            (map (\<lambda>k. ([], drop k s)) (rev [1 ..< length u]))"
    unfolding rx_run.simps(9) plus by (simp add: tk)
  have lit: "rx_run False (Lit ''@'') (CHR ''@'' # rest) = [([], rest)]"
    by (simp add: char_eq_def)
  have "\<exists>more. rx_run False (Seq (Grp (Plus p)) (Lit ''@'')) s = ([u], rest) # more"
    unfolding rx_run.simps(4) grp by (simp add: char_eq_def)
  then obtain more where
    "rx_run False (Seq (Grp (Plus p)) (Lit ''@'')) s = ([u], rest) # more"
    by blast
  then have "re_match False (Seq (Grp (Plus p)) (Lit ''@'')) s = Some [u]"
    unfolding re_match_def by simp
  then show ?thesis
    by (simp only: email_pattern_def p_def s_def)
qed


lemma email_match_form:
  assumes "re_match False email_pattern s = Some g"
  shows "\<exists>u rest. u \<noteq> [] \<and> CHR ''@'' \<notin> set u \<and> s = u @ CHR ''@'' # rest"
proof -
  from assms obtain g' r where "(g', r) \<in> set (rx_run False email_pattern s)"
    by (auto simp: re_match_def split: list.splits)
  from rx_run_sound [OF this] obtain m where m: "s = m @ r" "m \<in> rx_lang False email_pattern"
    by blast
  from m(2) obtain u where u: "m = u @ ''@''" "u \<noteq> []" "list_all (\<lambda>c. c \<noteq> CHR ''@'') u"
    by (auto simp: email_pattern_def dest: lit_match_exact)
  from u(3) have "CHR ''@'' \<notin> set u" by (auto simp: list_all_iff)
  with m(1) u(1,2) show ?thesis by auto
qed

lemma pattern_scan_values:
  "pattern_scan username patterns = Some score \<Longrightarrow> score = 9 / 10 \<or> score = 7 / 10"
  by (induction patterns) (auto split: if_splits)

lemma compare_email_matched:
  assumes "re_match False email_pattern input_email = Some g"
  shows "compare_email input_email profile \<in> {8 / 10, 9 / 10, 7 / 10, 6 / 10, 2 / 10}"
proof -
  from email_match_form [OF assms] have ne: "input_email \<noteq> []" by auto
  show ?thesis
    using ne assms
    by (auto simp: compare_email_def Let_def split: option.splits dest: pattern_scan_values)
qed



text \<open>
  Claim C5, as amended. For every input email with a non-empty local part before its first
  \<open>@\<close>, the email score is at least 0.2; for an empty input email it is exactly 0, and so
  it is for every email with no \<open>@\<close> or with nothing before its first \<open>@\<close>.
\<close>

theorem email_score_floor:
  "(input_email = [] \<longrightarrow> compare_email input_email profile = 0)
   \<and> (u \<noteq> [] \<and> CHR ''@'' \<notin> set u \<longrightarrow> 2 / 10 \<le> compare_email (u @ CHR ''@'' # rest) profile)
   \<and> ((\<nexists>u rest. u \<noteq> [] \<and> CHR ''@'' \<notin> set u \<and> input_email = u @ CHR ''@'' # rest)
        \<longrightarrow> compare_email input_email profile = 0)"
proof (intro conjI impI)
  assume "input_email = []"
  then show "compare_email input_email profile = 0" by (simp add: compare_email_def)
next
  assume "u \<noteq> [] \<and> CHR ''@'' \<notin> set u"
  then have "re_match False email_pattern (u @ CHR ''@'' # rest) = Some [u]"
    by (simp add: email_local_part)
  from compare_email_matched [OF this, of profile]
  show "2 / 10 \<le> compare_email (u @ CHR ''@'' # rest) profile" by auto
next
  assume none: "\<nexists>u rest. u \<noteq> [] \<and> CHR ''@'' \<notin> set u \<and> input_email = u @ CHR ''@'' # rest"
  have "re_match False email_pattern input_email = None"
  proof (cases "re_match False email_pattern input_email")
    case None
    then show ?thesis .
  next
    case (Some g)
    from email_match_form [OF Some] none show ?thesis by blast
  qed
  then show "compare_email input_email profile = 0" by (simp add: compare_email_def)
qed











lemma john_confidence: "calculate_confidence john_input john_profile = 97"
  by code_simp



theorem compare_names_identical_witness:
  "''Jos'' @ e_acute @ '' Silva'' \<noteq> [] \<and> '' JOSE Silva  '' \<noteq> []
   \<and> normalize_text (''Jos'' @ e_acute @ '' Silva'') = normalize_text '' JOSE Silva  ''
   \<and> compare_names (''Jos'' @ e_acute @ '' Silva'') '' JOSE Silva  '' = 1"
proof -
  have n: "normalize_text (''Jos'' @ e_acute @ '' Silva'') = normalize_text '' JOSE Silva  ''"
    by code_simp
  have "''Jos'' @ e_acute @ '' Silva'' \<noteq> []" "'' JOSE Silva  '' \<noteq> []" by simp_all
  from compare_names_identical [OF this n] n show ?thesis by simp
qed

theorem email_score_floor_witness:
  "''xyz'' \<noteq> [] \<and> CHR ''@'' \<notin> set ''xyz''
   \<and> 2 / 10 \<le> compare_email ''xyz@gmail.com'' john_profile
   \<and> compare_email ''xyz@gmail.com'' john_profile = 2 / 10
   \<and> compare_email [] john_profile = 0"
proof -
  have "compare_email ''xyz@gmail.com'' john_profile = 2 / 10" by code_simp
  with email_score_floor [of "[]" john_profile "''xyz''" "''gmail.com''"]
  show ?thesis by simp
qed

text \<open>
  Claim C5 as stated fails for a non-empty email with no \<open>@\<close>, or with nothing before it:
  the pattern \<open>^([^@]+)@\<close> does not match, and the function returns 0.
\<close>

theorem email_without_local_part:
  "''jsmith'' \<noteq> [] \<and> compare_email ''jsmith'' john_profile = 0
   \<and> \<not> 2 / 10 \<le> compare_email ''jsmith'' john_profile
   \<and> ''@example.com'' \<noteq> [] \<and> compare_email ''@example.com'' john_profile = 0"
  by code_simp





text \<open>
  The loop over the four patterns tests each pattern for equality and then for similarity
  before it moves to the next, so a local part equal to a later pattern is answered with
  0.7 as soon as an earlier pattern is more than 0.8 similar to it: \<open>john_smith\<close> against
  \<open>john.smith\<close>.
\<close>

lemma email_pattern_preempted:
  "lower ''john_smith'' = profile_patterns john_profile ! 1
   \<and> ratio ''john_smith'' ''john.smith'' = 9 / 10
   \<and> compare_email ''john_smith@example.com'' john_profile = 7 / 10"
  by code_simp

section \<open>Properties of the orchestrator\<close>

lemma hunt_profile_empty_url:
  assumes "fst (retry_async (find_profile co name email company) (MAX_RETRIES cfg)
      (RETRY_DELAY cfg) (\<lambda>e. True) (BACKOFF_FACTOR cfg) jitter (rate_limiter_wait co w))
     = Returned profile_result"
    and "url profile_result = []"
  shows "fst (hunt_profile cfg jitter co name email company w)
     = Inr \<lparr>Nome = name, E_mail = email, Empresa = company, Confiabilidade = ''0%'',
            LinkedIn = not_found_url, Cargo_Atual = ''N/A'', Experiencia_Anterior = [],
            Formacao = [], Habilidades_principais = [],
            Analise_do_Perfil = Some not_found_analysis\<rparr>"
  using assms
  by (cases "retry_async (find_profile co name email company) (MAX_RETRIES cfg)
      (RETRY_DELAY cfg) (\<lambda>e. True) (BACKOFF_FACTOR cfg) jitter (rate_limiter_wait co w)")
    (simp add: hunt_profile_def)

text \<open>
  Claim C8. Whenever the profile search ends with an empty candidate URL (the retried
  search returns a result whose \<open>url\<close> is empty; in particular when the first call of
  \<open>find_profile\<close> does, the settings allowing at least one attempt), \<open>hunt_profile\<close>
  returns, and does not raise, the result whose confidence is the string \<open>0%\<close>, whose
  profile URL is the not-found sentinel, whose current title is \<open>N/A\<close>, whose experience,
  education and skills lists are empty, and whose analysis is the fixed not-found message.
\<close>

theorem hunt_profile_not_found:
  "(fst (retry_async (find_profile co name email company) (MAX_RETRIES cfg)
      (RETRY_DELAY cfg) (\<lambda>e. True) (BACKOFF_FACTOR cfg) jitter (rate_limiter_wait co w))
     = Returned profile_result
    \<and> url profile_result = []
    \<longrightarrow> fst (hunt_profile cfg jitter co name email company w)
     = Inr \<lparr>Nome = name, E_mail = email, Empresa = company, Confiabilidade = ''0%'',
            LinkedIn = not_found_url, Cargo_Atual = ''N/A'', Experiencia_Anterior = [],
            Formacao = [], Habilidades_principais = [],
            Analise_do_Perfil = Some not_found_analysis\<rparr>)
   \<and> (0 \<le> MAX_RETRIES cfg
    \<and> fst (find_profile co name email company (rate_limiter_wait co w)) = Inr profile_result
    \<and> url profile_result = []
    \<longrightarrow> fst (hunt_profile cfg jitter co name email company w)
     = Inr \<lparr>Nome = name, E_mail = email, Empresa = company, Confiabilidade = ''0%'',
            LinkedIn = not_found_url, Cargo_Atual = ''N/A'', Experiencia_Anterior = [],
            Formacao = [], Habilidades_principais = [],
            Analise_do_Perfil = Some not_found_analysis\<rparr>)"
proof (intro conjI impI)
  assume "fst (retry_async (find_profile co name email company) (MAX_RETRIES cfg)
      (RETRY_DELAY cfg) (\<lambda>e. True) (BACKOFF_FACTOR cfg) jitter (rate_limiter_wait co w))
     = Returned profile_result \<and> url profile_result = []"
  then have found: "fst (retry_async (find_profile co name email company) (MAX_RETRIES cfg)
      (RETRY_DELAY cfg) (\<lambda>e. True) (BACKOFF_FACTOR cfg) jitter (rate_limiter_wait co w))
     = Returned profile_result" and empty: "url profile_result = []"
    by simp_all
  show "fst (hunt_profile cfg jitter co name email company w)
     = Inr \<lparr>Nome = name, E_mail = email, Empresa = company, Confiabilidade = ''0%'',
            LinkedIn = not_found_url, Cargo_Atual = ''N/A'', Experiencia_Anterior = [],
            Formacao = [], Habilidades_principais = [],
            Analise_do_Perfil = Some not_found_analysis\<rparr>"
    using found empty by (rule hunt_profile_empty_url)
next
  assume a: "0 \<le> MAX_RETRIES cfg
    \<and> fst (find_profile co name email company (rate_limiter_wait co w)) = Inr profile_result
    \<and> url profile_result = []"
  then have "int 0 \<le> MAX_RETRIES cfg"
    and "fails_first (find_profile co name email company) (\<lambda>e. True) (rate_limiter_wait co w) 0"
    and "nth_outcome (find_profile co name email company) (rate_limiter_wait co w) 0
      = Inr profile_result"
    by (simp_all add: nth_outcome_def)
  from retry_async_success [OF this]
  have found: "fst (retry_async (find_profile co name email company) (MAX_RETRIES cfg)
      (RETRY_DELAY cfg) (\<lambda>e. True) (BACKOFF_FACTOR cfg) jitter (rate_limiter_wait co w))
     = Returned profile_result"
    by simp
  from a have empty: "url profile_result = []" by simp
  show "fst (hunt_profile cfg jitter co name email company w)
     = Inr \<lparr>Nome = name, E_mail = email, Empresa = company, Confiabilidade = ''0%'',
            LinkedIn = not_found_url, Cargo_Atual = ''N/A'', Experiencia_Anterior = [],
            Formacao = [], Habilidades_principais = [],
            Analise_do_Perfil = Some not_found_analysis\<rparr>"
    using found empty by (rule hunt_profile_empty_url)
qed

theorem hunt_profile_not_found_witness:
  "fst (retry_async (find_profile finds_nothing ''John Smith'' ''john.smith@example.com''
         ''Example Corp'') (MAX_RETRIES default_settings) (RETRY_DELAY default_settings)
         (\<lambda>e. True) (BACKOFF_FACTOR default_settings) (\<lambda>i. 1)
         (rate_limiter_wait finds_nothing 0))
     = Returned \<lparr>url = [], initial_confidence = 0\<rparr>
   \<and> fst (hunt_profile default_settings (\<lambda>i. 1) finds_nothing ''John Smith''
         ''john.smith@example.com'' ''Example Corp'' 0)
     = Inr \<lparr>Nome = ''John Smith'', E_mail = ''john.smith@example.com'',
            Empresa = ''Example Corp'', Confiabilidade = ''0%'',
            LinkedIn = not_found_url, Cargo_Atual = ''N/A'', Experiencia_Anterior = [],
            Formacao = [], Habilidades_principais = [],
            Analise_do_Perfil = Some not_found_analysis\<rparr>"
proof -
  have found: "fst (retry_async (find_profile finds_nothing ''John Smith''
         ''john.smith@example.com'' ''Example Corp'') (MAX_RETRIES default_settings)
         (RETRY_DELAY default_settings) (\<lambda>e. True) (BACKOFF_FACTOR default_settings) (\<lambda>i. 1)
         (rate_limiter_wait finds_nothing 0))
     = Returned \<lparr>url = [], initial_confidence = 0\<rparr>"
    by (simp add: retry_async_def finds_nothing_def default_settings_def upt_conv_Cons)
  from hunt_profile_not_found [of finds_nothing "''John Smith''" "''john.smith@example.com''"
      "''Example Corp''" default_settings "\<lambda>i. 1" 0 "\<lparr>url = [], initial_confidence = 0\<rparr>"]
    found
  show ?thesis by simp
qed

text \<open>
  The other path, on the repository's exact-match profile: the three stages run once each
  and the confidence is printed as Python prints the float.
\<close>

lemma str_float_97: "str_float 97 = ''97.0''"
  by code_simp

lemma hunt_profile_found_example:
  "hunt_profile default_settings (\<lambda>i. 1) finds_john ''John Smith'' ''john.smith@example.com''
     ''Example Corp'' 0
   = (Inr \<lparr>Nome = ''John Smith'', E_mail = ''john.smith@example.com'',
            Empresa = ''Example Corp'', Confiabilidade = ''97.0%'',
            LinkedIn = ''https://www.linkedin.com/in/john-smith'', Cargo_Atual = ''N/A'',
            Experiencia_Anterior = [[(''title'', ''Software Engineer''),
              (''company'', ''Example Corp''), (''duration'', ''2020 - Present'')]],
            Formacao = [], Habilidades_principais = [],
            Analise_do_Perfil = Some ''An engineer.''\<rparr>, 3)"
  by (simp add: hunt_profile_def finds_john_def default_settings_def retry_async_def
      upt_conv_Cons john_confidence [unfolded john_input_def john_profile_def] str_float_97
      or_default_def john_profile_def del: upt_Suc)
end
